theory Spec2Isabelle
  imports Main "HOL-Library.Word"
begin

section \<open>The chunk-addressable retrieval corpus (indexed\_retrieval\_dataset.py)\<close>

text \<open>
  The development embeds \<^verbatim>\<open>MMapRetrievalIndexedDataset\<close>, its nested
  \<^verbatim>\<open>Index\<close> (reader and \<^verbatim>\<open>_Writer\<close>) and
  \<^verbatim>\<open>MMapRetrievalIndexedDatasetBuilder\<close>.
  Python integers are \<open>int\<close>; \<open>//\<close> and \<open>%\<close> are \<open>div\<close> and \<open>mod\<close>
  on \<open>int\<close> (both round towards minus infinity), with the division by zero written out
  as an error. A file is the list of its bytes. Every exception the source can raise is
  a value of \<open>py_error\<close>, and a fallible function returns \<open>py_error + 'a\<close>.
\<close>

subsection \<open>Errors, bytes and element types\<close>

datatype py_error =
  ValueError | IndexError | ZeroDivisionError | NameError | AssertionError
  | StructError | KeyError | OverflowError | TypeError | AttributeError

type_synonym byte = "8 word"

text \<open>Sequencing: the first exception raised ends the computation.\<close>

definition and_then :: "py_error + 'a \<Rightarrow> ('a \<Rightarrow> py_error + 'b) \<Rightarrow> py_error + 'b" where
  "and_then m f = (case m of Inl e \<Rightarrow> Inl e | Inr x \<Rightarrow> f x)"

text \<open>\<^verbatim>\<open>d[k]\<close> on a dictionary: \<^verbatim>\<open>KeyError\<close> for a missing key.\<close>

definition dict_get :: "('k \<times> 'v) list \<Rightarrow> 'k \<Rightarrow> py_error + 'v" where
  "dict_get d k = (case map_of d k of None \<Rightarrow> Inl KeyError | Some v \<Rightarrow> Inr v)"

text \<open>
  The element types of the table \<^verbatim>\<open>dtypes\<close>. The two floating-point entries
  (code 6, \<^verbatim>\<open>np.float\<close>, and code 7, \<^verbatim>\<open>np.double\<close>) are left out:
  token ids are integers, and floating point is outside this development.
\<close>

datatype np_dtype = uint8 | int8 | int16 | int32 | int64 | uint16

definition dtypes :: "(int \<times> np_dtype) list" where
  "dtypes = [(1, uint8), (2, int8), (3, int16), (4, int32), (5, int64), (8, uint16)]"

fun code_loop :: "(int \<times> np_dtype) list \<Rightarrow> np_dtype \<Rightarrow> py_error + int" where
  "code_loop [] dtype = Inl ValueError"
| "code_loop ((k, d) # rest) dtype = (if d = dtype then Inr k else code_loop rest dtype)"

definition code :: "np_dtype \<Rightarrow> py_error + int" where
  "code dtype = code_loop dtypes dtype"

fun itemsize :: "np_dtype \<Rightarrow> nat" where
  "itemsize uint8 = 1"
| "itemsize int8 = 1"
| "itemsize int16 = 2"
| "itemsize int32 = 4"
| "itemsize int64 = 8"
| "itemsize uint16 = 2"

fun is_signed :: "np_dtype \<Rightarrow> bool" where
  "is_signed uint8 = False"
| "is_signed int8 = True"
| "is_signed int16 = True"
| "is_signed int32 = True"
| "is_signed int64 = True"
| "is_signed uint16 = False"

text \<open>
  \<^verbatim>\<open>np.array(x, dtype=d)\<close> on integer data keeps the low bits of each value
  (two's complement for the signed types): \<open>np_cast\<close>. A value is stored unchanged
  exactly when it is \<open>in_range\<close>.
\<close>

definition np_cast :: "np_dtype \<Rightarrow> int \<Rightarrow> int" where
  "np_cast d x =
     (let m = 256 ^ itemsize d in
      if is_signed d then (x + m div 2) mod m - m div 2 else x mod m)"

definition in_range :: "np_dtype \<Rightarrow> int \<Rightarrow> bool" where
  "in_range d x =
     (let m = 256 ^ itemsize d in
      if is_signed d then - (m div 2) \<le> x \<and> x < m div 2 else 0 \<le> x \<and> x < m)"

subsection \<open>Little-endian bytes: \<^verbatim>\<open>struct.pack\<close>, \<^verbatim>\<open>tobytes\<close>, \<^verbatim>\<open>np.frombuffer\<close>\<close>

fun le_bytes :: "nat \<Rightarrow> int \<Rightarrow> byte list" where
  "le_bytes 0 n = []"
| "le_bytes (Suc w) n = word_of_int (n mod 256) # le_bytes w (n div 256)"

fun from_le :: "byte list \<Rightarrow> int" where
  "from_le [] = 0"
| "from_le (b # bs) = uint b + 256 * from_le bs"

text \<open>\<^verbatim>\<open>struct.pack('<Q', n)\<close> and \<^verbatim>\<open>struct.pack('<B', n)\<close>: \<^verbatim>\<open>struct.error\<close>
  when the number does not fit the unsigned field.\<close>

definition pack_Q :: "int \<Rightarrow> py_error + byte list" where
  "pack_Q n = (if 0 \<le> n \<and> n < 2 ^ 64 then Inr (le_bytes 8 n) else Inl StructError)"

definition pack_B :: "int \<Rightarrow> py_error + byte list" where
  "pack_B n = (if 0 \<le> n \<and> n < 2 ^ 8 then Inr (le_bytes 1 n) else Inl StructError)"

text \<open>\<^verbatim>\<open>struct.unpack\<close> of a field of \<open>w\<close> bytes: \<^verbatim>\<open>struct.error\<close> when the
  stream gave fewer bytes.\<close>

definition unpack_le :: "nat \<Rightarrow> byte list \<Rightarrow> py_error + int" where
  "unpack_le w bs = (if length bs = w then Inr (from_le bs) else Inl StructError)"

definition encode :: "np_dtype \<Rightarrow> int \<Rightarrow> byte list" where
  "encode d x = le_bytes (itemsize d) x"

definition decode :: "np_dtype \<Rightarrow> byte list \<Rightarrow> int" where
  "decode d bs =
     (let m = 256 ^ itemsize d; v = from_le bs in
      if is_signed d \<and> m div 2 \<le> v then v - m else v)"

text \<open>\<^verbatim>\<open>ndarray.tobytes(order='C')\<close> of a one-dimensional array of type \<open>d\<close>.\<close>

definition tobytes :: "np_dtype \<Rightarrow> int list \<Rightarrow> byte list" where
  "tobytes d xs = concat (map (encode d) xs)"

fun items :: "nat \<Rightarrow> nat \<Rightarrow> byte list \<Rightarrow> byte list list" where
  "items 0 w bs = []"
| "items (Suc n) w bs = take w bs # items n w (drop w bs)"

text \<open>
  \<^verbatim>\<open>np.frombuffer(buffer, dtype, count, offset)\<close>: the offset is in bytes and must lie
  in the buffer; a negative count reads everything after the offset, which must then be
  a whole number of elements; a non-negative count must fit in the buffer.
\<close>

definition frombuffer :: "byte list \<Rightarrow> np_dtype \<Rightarrow> int \<Rightarrow> int \<Rightarrow> py_error + int list" where
  "frombuffer buffer d count offset =
     (let ts = int (length buffer); w = itemsize d in
      if offset < 0 \<or> ts < offset then Inl ValueError
      else
        let s = ts - offset in
        if count < 0 then
          (if s mod int w \<noteq> 0 then Inl ValueError
           else Inr (map (decode d) (items (nat (s div int w)) w (drop (nat offset) buffer))))
        else if s < count * int w then Inl ValueError
        else Inr (map (decode d) (items (nat count) w (drop (nat offset) buffer))))"

subsection \<open>Indexing and slicing of one-dimensional arrays\<close>

text \<open>\<^verbatim>\<open>a[i]\<close> on a numpy array: a negative index counts from the end, and an index
  outside \<open>[-n, n)\<close> raises \<^verbatim>\<open>IndexError\<close>.\<close>

definition np_index :: "'a list \<Rightarrow> int \<Rightarrow> py_error + 'a" where
  "np_index a i =
     (let n = int (length a) in
      if i < - n \<or> n \<le> i then Inl IndexError
      else Inr (a ! nat (if i < 0 then i + n else i)))"

text \<open>A \<^verbatim>\<open>slice(start, stop, step)\<close> object, each part an integer or \<^verbatim>\<open>None\<close>.\<close>

datatype py_slice = Slice "int option" "int option" "int option"

text \<open>\<^verbatim>\<open>slice.indices(n)\<close>: \<^verbatim>\<open>ValueError\<close> for a zero step, otherwise the
  clipped start and stop and the step.\<close>

definition slice_indices :: "py_slice \<Rightarrow> int \<Rightarrow> py_error + (int \<times> int \<times> int)" where
  "slice_indices sl n =
     (case sl of Slice start stop step \<Rightarrow>
        let st = (case step of None \<Rightarrow> 1 | Some s \<Rightarrow> s) in
        if st = 0 then Inl ValueError
        else
          let lower = (if st < 0 then - 1 else 0);
              upper = (if st < 0 then n - 1 else n);
              clip = (\<lambda>v. if v < 0 then max (v + n) lower else min v upper);
              a = (case start of None \<Rightarrow> (if st < 0 then upper else lower) | Some v \<Rightarrow> clip v);
              b = (case stop of None \<Rightarrow> (if st < 0 then lower else upper) | Some v \<Rightarrow> clip v)
          in Inr (a, b, st))"

text \<open>\<^verbatim>\<open>a[lo:hi]\<close> for integers \<open>lo\<close> and \<open>hi\<close> (unit step).\<close>

definition np_slice :: "'a list \<Rightarrow> int \<Rightarrow> int \<Rightarrow> 'a list" where
  "np_slice a lo hi =
     (let n = int (length a);
          clip = (\<lambda>v. if v < 0 then max (v + n) 0 else min v n);
          s = clip lo; e = clip hi
      in take (nat (e - s)) (drop (nat s) a))"

subsection \<open>The index writer (\<^verbatim>\<open>Index.writer\<close>, class \<^verbatim>\<open>_Writer\<close>)\<close>

definition HDR_MAGIC :: "byte list" where
  "HDR_MAGIC = [0x4D, 0x4D, 0x49, 0x44, 0x52, 0x45, 0x54, 0x00, 0x00]"

text \<open>\<^verbatim>\<open>__enter__\<close>: the content of the index file after the header was written.\<close>

definition Writer_enter :: "np_dtype \<Rightarrow> py_error + byte list" where
  "Writer_enter dtype =
     (case pack_Q 1 of Inl e \<Rightarrow> Inl e | Inr version \<Rightarrow>
      case code dtype of Inl e \<Rightarrow> Inl e | Inr c \<Rightarrow>
      case pack_B c of Inl e \<Rightarrow> Inl e | Inr cb \<Rightarrow>
        Inr (HDR_MAGIC @ version @ cb))"

text \<open>The loop of \<^verbatim>\<open>_get_pointers\<close>, with its variables \<open>address\<close> and \<open>pointers\<close>.\<close>

fun get_pointers_loop ::
  "np_dtype \<Rightarrow> bool \<Rightarrow> int \<Rightarrow> int list \<Rightarrow> int \<Rightarrow> int list \<Rightarrow> int list" where
  "get_pointers_loop dtype retrieval_db chunk_size [] address pointers = pointers"
| "get_pointers_loop dtype retrieval_db chunk_size (sz # rest) address pointers =
     (let dtype_size = int (itemsize dtype);
          pointers1 = pointers @ [address];
          address1 = address + sz * dtype_size;
          address2 = (if retrieval_db then address1 + chunk_size * dtype_size else address1)
      in get_pointers_loop dtype retrieval_db chunk_size rest address2 pointers1)"

definition get_pointers :: "np_dtype \<Rightarrow> bool \<Rightarrow> int list \<Rightarrow> int \<Rightarrow> int list" where
  "get_pointers dtype retrieval_db sizes chunk_size =
     get_pointers_loop dtype retrieval_db chunk_size sizes 0 []"

text \<open>The inner loop \<^verbatim>\<open>for _ in range(num_of_chunks)\<close> of
  \<^verbatim>\<open>_get_chunk_id_and_address\<close>: it returns the address and the pointers.\<close>

fun chunk_loop :: "nat \<Rightarrow> int \<Rightarrow> int \<Rightarrow> int list \<Rightarrow> int \<times> int list" where
  "chunk_loop 0 step address pointers = (address, pointers)"
| "chunk_loop (Suc n) step address pointers =
     chunk_loop n step (address + step) (pointers @ [address])"

text \<open>The outer loop; the integer division is evaluated before the alignment test, so
  a zero chunk size raises \<^verbatim>\<open>ZeroDivisionError\<close>.\<close>

fun get_chunk_id_and_address_loop ::
  "np_dtype \<Rightarrow> bool \<Rightarrow> int \<Rightarrow> int list \<Rightarrow> int list \<Rightarrow> int \<Rightarrow> int \<Rightarrow> int list
     \<Rightarrow> py_error + (int list \<times> int list)" where
  "get_chunk_id_and_address_loop dtype retrieval_db chunk_size [] chunk_ids last_id address pointers =
     Inr (chunk_ids, pointers)"
| "get_chunk_id_and_address_loop dtype retrieval_db chunk_size (sz # rest)
       chunk_ids last_id address pointers =
     (let dtype_size = int (itemsize dtype);
          chunk_ids1 = chunk_ids @ [last_id] in
      if chunk_size = 0 then Inl ZeroDivisionError
      else
        let num_of_chunks = sz div chunk_size in
        if sz mod chunk_size \<noteq> 0 then Inl ValueError
        else
          (case chunk_loop (nat num_of_chunks) (chunk_size * dtype_size) address pointers of
             (address1, pointers1) \<Rightarrow>
               let address2 =
                     (if retrieval_db then address1 + chunk_size * dtype_size else address1)
               in get_chunk_id_and_address_loop dtype retrieval_db chunk_size rest
                    chunk_ids1 (last_id + num_of_chunks) address2 pointers1))"

definition get_chunk_id_and_address ::
  "np_dtype \<Rightarrow> bool \<Rightarrow> int list \<Rightarrow> int \<Rightarrow> py_error + (int list \<times> int list)" where
  "get_chunk_id_and_address dtype retrieval_db sizes chunk_size =
     get_chunk_id_and_address_loop dtype retrieval_db chunk_size sizes [] 0 0 []"

text \<open>
  \<^verbatim>\<open>_Writer.write\<close>. The result is the content of the index file after the call
  and the exception raised, if any: the two address computations come first, so an
  exception of theirs leaves the file as it was, and a \<^verbatim>\<open>struct.error\<close> leaves
  the fields written before it.
\<close>

definition Writer_write ::
  "np_dtype \<Rightarrow> bool \<Rightarrow> byte list \<Rightarrow> int list \<Rightarrow> int \<Rightarrow> byte list \<times> py_error option" where
  "Writer_write dtype retrieval_db file sizes chunk_size =
     (let pointers = get_pointers dtype retrieval_db sizes chunk_size in
      case get_chunk_id_and_address dtype retrieval_db sizes chunk_size of
        Inl e \<Rightarrow> (file, Some e)
      | Inr (chunk_ids, chunk_address) \<Rightarrow>
      case pack_Q (int (length sizes)) of Inl e \<Rightarrow> (file, Some e) | Inr b1 \<Rightarrow>
      case pack_Q chunk_size of Inl e \<Rightarrow> (file @ b1, Some e) | Inr b2 \<Rightarrow>
      case pack_Q (int (length chunk_address)) of
        Inl e \<Rightarrow> (file @ b1 @ b2, Some e) | Inr b3 \<Rightarrow>
      case pack_B (if retrieval_db then 1 else 0) of
        Inl e \<Rightarrow> (file @ b1 @ b2 @ b3, Some e) | Inr b4 \<Rightarrow>
        (file @ b1 @ b2 @ b3 @ b4
           @ tobytes int32 (map (np_cast int32) sizes)
           @ tobytes int64 (map (np_cast int64) pointers)
           @ tobytes int64 (map (np_cast int64) chunk_ids)
           @ tobytes int64 (map (np_cast int64) chunk_address), None))"

subsection \<open>The index reader (\<^verbatim>\<open>MMapRetrievalIndexedDataset.Index\<close>)\<close>

record Index =
  index_dtype :: np_dtype
  index_dtype_size :: int
  index_len :: int
  index_chunk_size :: int
  index_num_chunks :: int
  index_retrieval_db :: bool
  index_sizes :: "int list"
  index_pointers :: "int list"
  index_chunk_id_start :: "int list"
  index_chunk_address :: "int list"

text \<open>\<^verbatim>\<open>stream.read(n)\<close> at position \<open>pos\<close>: at most \<open>n\<close> bytes.\<close>

definition stream_read :: "byte list \<Rightarrow> nat \<Rightarrow> nat \<Rightarrow> byte list" where
  "stream_read file pos n = take n (drop pos file)"

text \<open>
  \<^verbatim>\<open>Index.__init__\<close>. The header is read field by field (a short read fails in the
  assertion on the magic or in \<^verbatim>\<open>struct.unpack\<close>, so \<^verbatim>\<open>stream.tell()\<close> is 43
  when it is reached); the four arrays are views of the mapped file.
\<close>

definition Index_init :: "byte list \<Rightarrow> py_error + Index" where
  "Index_init file =
     (let magic_test = stream_read file 0 9 in
      if HDR_MAGIC \<noteq> magic_test then Inl AssertionError
      else
      and_then (unpack_le 8 (stream_read file 9 8)) (\<lambda>version.
      if version \<noteq> 1 then Inl AssertionError
      else
      and_then (unpack_le 1 (stream_read file 17 1)) (\<lambda>dtype_code.
      and_then (dict_get dtypes dtype_code) (\<lambda>dtype.
      and_then (unpack_le 8 (stream_read file 18 8)) (\<lambda>len.
      and_then (unpack_le 8 (stream_read file 26 8)) (\<lambda>chunk_size.
      and_then (unpack_le 8 (stream_read file 34 8)) (\<lambda>num_chunks.
      and_then (unpack_le 1 (stream_read file 42 1)) (\<lambda>rdb.
      let offset = 43 in
      and_then (frombuffer file int32 len offset) (\<lambda>sizes.
      let sizes_nbytes = 4 * int (length sizes) in
      and_then (frombuffer file int64 len (offset + sizes_nbytes)) (\<lambda>pointers.
      let pointers_nbytes = 8 * int (length pointers) in
      and_then (frombuffer file int64 len (offset + sizes_nbytes + pointers_nbytes))
        (\<lambda>chunk_id_start.
      let chunk_id_start_nbytes = 8 * int (length chunk_id_start) in
      and_then (frombuffer file int64 num_chunks
                  (offset + sizes_nbytes + pointers_nbytes + chunk_id_start_nbytes))
        (\<lambda>chunk_address.
        Inr \<lparr>index_dtype = dtype, index_dtype_size = int (itemsize dtype),
             index_len = len, index_chunk_size = chunk_size, index_num_chunks = num_chunks,
             index_retrieval_db = (rdb \<noteq> 0), index_sizes = sizes, index_pointers = pointers,
             index_chunk_id_start = chunk_id_start,
             index_chunk_address = chunk_address\<rparr>))))))))))))"

definition Index_get_chunk_address :: "Index \<Rightarrow> int \<Rightarrow> py_error + int" where
  "Index_get_chunk_address self chunk_id = np_index (index_chunk_address self) chunk_id"

text \<open>
  \<^verbatim>\<open>Index.get_chunk_id\<close>: the array is subscripted first, then the position is
  divided by the chunk size (\<^verbatim>\<open>ZeroDivisionError\<close> for a zero chunk size). The
  quotient is a Python integer and the array entry an \<^verbatim>\<open>np.int64\<close>. When the quotient
  fits 64 bits signed the sum is an \<^verbatim>\<open>np.int64\<close> sum, which wraps around, and
  \<^verbatim>\<open>.item()\<close> gives it as an integer. A quotient from \<open>2 ^ 63\<close> up to \<open>2 ^ 64 - 1\<close> is
  an unsigned 64-bit value, and the sum of a signed and an unsigned 64-bit value is a
  float: of that result only the fact that it is no integer is modelled. Any other
  quotient makes the sum a plain Python integer, which has no \<^verbatim>\<open>item\<close> method.
\<close>

datatype py_item = IntItem int | FloatItem

definition Index_get_chunk_id :: "Index \<Rightarrow> int \<Rightarrow> int \<Rightarrow> py_error + py_item" where
  "Index_get_chunk_id self sentence_id position =
     (case np_index (index_chunk_id_start self) sentence_id of
        Inl e \<Rightarrow> Inl e
      | Inr c \<Rightarrow>
          if index_chunk_size self = 0 then Inl ZeroDivisionError
          else
            let q = position div index_chunk_size self in
            if in_range int64 q then Inr (IntItem (np_cast int64 (c + q)))
            else if 2 ^ 63 \<le> q \<and> q < 2 ^ 64 then Inr FloatItem
            else Inl AttributeError)"

definition Index_getitem :: "Index \<Rightarrow> int \<Rightarrow> py_error + (int \<times> int)" where
  "Index_getitem self i =
     (case np_index (index_pointers self) i of
        Inl e \<Rightarrow> Inl e
      | Inr p \<Rightarrow> (case np_index (index_sizes self) i of Inl e \<Rightarrow> Inl e | Inr s \<Rightarrow> Inr (p, s)))"

subsection \<open>The corpus reader (\<^verbatim>\<open>MMapRetrievalIndexedDataset\<close>)\<close>

record Dataset =
  ds_index :: Index
  ds_bin_buffer :: "byte list"

text \<open>\<^verbatim>\<open>_do_init\<close>, given the contents of the \<^verbatim>\<open>.idx\<close> and the \<^verbatim>\<open>.bin\<close>
  file; \<^verbatim>\<open>np.memmap\<close> refuses an empty file with \<^verbatim>\<open>ValueError\<close>.\<close>

definition Dataset_init :: "byte list \<Rightarrow> byte list \<Rightarrow> py_error + Dataset" where
  "Dataset_init idx_file bin_file =
     and_then (Index_init idx_file) (\<lambda>index.
       if bin_file = [] then Inl ValueError
       else Inr \<lparr>ds_index = index, ds_bin_buffer = bin_file\<rparr>)"

definition Dataset_len :: "Dataset \<Rightarrow> int" where
  "Dataset_len self = index_len (ds_index self)"

definition chunks :: "Dataset \<Rightarrow> int" where
  "chunks self = index_num_chunks (ds_index self)"

text \<open>The argument of an accessor is an integer or a slice (\<^verbatim>\<open>isinstance\<close>), and
  the result one array or a list of arrays.\<close>

datatype key = IntKey int | SliceKey py_slice

datatype view = Array "int list" | Arrays "int list list"

text \<open>
  \<^verbatim>\<open>Index.get_chunk\<close>, a method under \<^verbatim>\<open>lru_cache\<close>. The wrapper hashes the
  arguments to make the cache key before it calls the body, so an unhashable argument
  raises \<^verbatim>\<open>TypeError\<close> there; it caches only a returned value. The argument is
  modelled as an integer, which is hashable, or a list of integers, which is not. The
  body reads the name \<open>i\<close>, which is neither a parameter nor a local variable of the
  method, so the lookup goes on to the module's globals and the builtins; \<open>module_names\<close>
  lists every name the module binds at top level, and no builtin is called \<open>i\<close>.
\<close>

datatype py_arg = IntArg int | ListArg "int list"

definition module_names :: "string list" where
  "module_names =
     [''os'', ''shutil'', ''struct'', ''lru_cache'', ''accumulate'', ''np'', ''torch'',
      ''logging'', ''dtypes'', ''code'', ''index_file_path'', ''data_file_path'',
      ''_warmup_mmap_file'', ''MMapRetrievalIndexedDataset'',
      ''MMapRetrievalIndexedDatasetBuilder'']"

datatype py_value = PyInt int | PyIndex Index | PyGlobal string

definition lookup_name ::
  "(string \<times> py_value) list \<Rightarrow> (string \<times> py_value) list \<Rightarrow> string \<Rightarrow> py_error + py_value" where
  "lookup_name locals globals name =
     (case map_of locals name of
        Some v \<Rightarrow> Inr v
      | None \<Rightarrow> (case map_of globals name of Some v \<Rightarrow> Inr v | None \<Rightarrow> Inl NameError))"

text \<open>Subscripting an array with an object that is neither an integer nor a slice is an
  \<^verbatim>\<open>IndexError\<close>.\<close>

definition np_index_value :: "int list \<Rightarrow> py_value \<Rightarrow> py_error + int" where
  "np_index_value a v = (case v of PyInt i \<Rightarrow> np_index a i | _ \<Rightarrow> Inl IndexError)"

fun Index_get_chunk :: "Index \<Rightarrow> py_arg \<Rightarrow> py_error + (int \<times> int)" where
  "Index_get_chunk self (ListArg xs) = Inl TypeError"
| "Index_get_chunk self (IntArg chunk_id) =
     and_then
       (lookup_name [(''self'', PyIndex self), (''chunk_id'', PyInt chunk_id)]
          (map (\<lambda>n. (n, PyGlobal n)) module_names) ''i'') (\<lambda>i.
     and_then (np_index_value (index_pointers self) i) (\<lambda>p.
     and_then (np_index_value (index_sizes self) i) (\<lambda>s. Inr (p, s))))"

text \<open>\<^verbatim>\<open>itertools.accumulate\<close> over the elements of an array of type \<open>t\<close>: the running
  sums are numpy scalars of that type.\<close>

fun accumulate_from :: "np_dtype \<Rightarrow> int \<Rightarrow> int list \<Rightarrow> int list" where
  "accumulate_from t acc [] = []"
| "accumulate_from t acc (x # xs) = np_cast t (acc + x) # accumulate_from t (np_cast t (acc + x)) xs"

definition accumulate :: "np_dtype \<Rightarrow> int list \<Rightarrow> int list" where
  "accumulate t xs = (case xs of [] \<Rightarrow> [] | x # rest \<Rightarrow> x # accumulate_from t x rest)"

text \<open>\<^verbatim>\<open>np.split(ary, indices)\<close>: the pieces between consecutive division points
  \<open>0, indices, len(ary)\<close>.\<close>

definition np_split :: "'a list \<Rightarrow> int list \<Rightarrow> 'a list list" where
  "np_split ary indices =
     (let div_points = [0] @ indices @ [int (length ary)] in
      map (\<lambda>(st, en). np_slice ary st en) (zip div_points (tl div_points)))"

text \<open>
  \<^verbatim>\<open>__getitem__\<close>. In the slice branch \<open>_sizes[idx]\<close> is an \<open>int32\<close> array; adding
  the chunk size keeps that type as long as the chunk size fits it, and the builtin
  \<^verbatim>\<open>sum\<close>, which starts from the Python integer 0, adds in 64 bits.
\<close>

definition Dataset_getitem :: "Dataset \<Rightarrow> key \<Rightarrow> py_error + view" where
  "Dataset_getitem self idx =
     (let index = ds_index self in
      case idx of
        IntKey i \<Rightarrow>
          and_then (Index_getitem index i) (\<lambda>(ptr, sz).
          and_then (frombuffer (ds_bin_buffer self) (index_dtype index) sz ptr) (\<lambda>np_array.
            Inr (Array np_array)))
      | SliceKey sl \<Rightarrow>
          and_then (slice_indices sl (Dataset_len self)) (\<lambda>(start, stop, step).
          if step \<noteq> 1 then Inl ValueError
          else
          and_then (np_index (index_pointers index) start) (\<lambda>ptr.
          let t = (if index_retrieval_db index \<and> \<not> in_range int32 (index_chunk_size index)
                   then int64 else int32);
              sizes = (if index_retrieval_db index
                       then map (\<lambda>s. np_cast t (s + index_chunk_size index))
                              (np_slice (index_sizes index) start stop)
                       else np_slice (index_sizes index) start stop);
              offsets = accumulate t sizes;
              total_size = sum_list sizes
          in
          and_then (frombuffer (ds_bin_buffer self) (index_dtype index) total_size ptr)
            (\<lambda>np_array.
          let sents = np_split np_array (butlast offsets) in
          Inr (Arrays (if index_retrieval_db index
                       then map (\<lambda>sent. np_slice sent 0 (- index_chunk_size index)) sents
                       else sents))))))"

definition Dataset_get :: "Dataset \<Rightarrow> int \<Rightarrow> int \<Rightarrow> int option \<Rightarrow> py_error + int list" where
  "Dataset_get self idx offset length_opt =
     (let index = ds_index self in
      and_then (Index_getitem index idx) (\<lambda>(ptr, sz).
      let len = (case length_opt of None \<Rightarrow> sz - offset | Some l \<Rightarrow> l);
          ptr1 = ptr + offset * int (itemsize (index_dtype index))
      in frombuffer (ds_bin_buffer self) (index_dtype index) len ptr1))"

text \<open>The accessor \<^verbatim>\<open>get_chunk_id\<close> of the dataset asserts the alignment of the offset.\<close>

definition Dataset_get_chunk_id :: "Dataset \<Rightarrow> int \<Rightarrow> int \<Rightarrow> py_error + py_item" where
  "Dataset_get_chunk_id self idx offset =
     (let index = ds_index self in
      if index_chunk_size index = 0 then Inl ZeroDivisionError
      else if offset mod index_chunk_size index \<noteq> 0 then Inl AssertionError
      else Index_get_chunk_id index idx offset)"

definition Dataset_get_chunk :: "Dataset \<Rightarrow> key \<Rightarrow> bool \<Rightarrow> py_error + view" where
  "Dataset_get_chunk self chunk_id force_no_padding =
     (let index = ds_index self in
      case chunk_id of
        IntKey c \<Rightarrow>
          and_then (Index_get_chunk_address index c) (\<lambda>ptr.
          let sz = (if index_retrieval_db index then index_chunk_size index * 2
                    else index_chunk_size index)
          in
          and_then (frombuffer (ds_bin_buffer self) (index_dtype index) sz ptr) (\<lambda>np_array.
            Inr (Array np_array)))
      | SliceKey sl \<Rightarrow>
          and_then (slice_indices sl (chunks self)) (\<lambda>(start, stop, step).
          if step \<noteq> 1 then Inl ValueError
          else
          let chunk_size = (if index_retrieval_db index \<and> \<not> force_no_padding
                            then index_chunk_size index * 2 else index_chunk_size index)
          in
          and_then (Index_get_chunk_address index start) (\<lambda>ptr.
          and_then (Index_get_chunk_address index (stop - 1)) (\<lambda>last_address.
          let end_address = last_address + chunk_size * index_dtype_size index;
              address = np_slice (index_chunk_address index) start stop;
              starting_pos = map (\<lambda>a. a div index_dtype_size index) address;
              total_size = (end_address - ptr) div index_dtype_size index
          in
          and_then (frombuffer (ds_bin_buffer self) (index_dtype index) total_size ptr)
            (\<lambda>np_array.
          and_then (np_index starting_pos 0) (\<lambda>first_pos.
            Inr (Arrays (map (\<lambda>pos. np_slice np_array pos (pos + chunk_size))
                           (map (\<lambda>p. p - first_pos) starting_pos)))))))))"

subsection \<open>The corpus builder (\<^verbatim>\<open>MMapRetrievalIndexedDatasetBuilder\<close>)\<close>

record Builder =
  builder_data_file :: "byte list"
  builder_dtype :: np_dtype
  builder_chunk_size :: int
  builder_sizes :: "int list"
  builder_retrieval_db :: bool
  builder_pad_id :: int

definition Builder_init :: "int \<Rightarrow> int \<Rightarrow> bool \<Rightarrow> np_dtype \<Rightarrow> Builder" where
  "Builder_init chunk_size pad_id retrieval_db dtype =
     \<lparr>builder_data_file = [], builder_dtype = dtype, builder_chunk_size = chunk_size,
      builder_sizes = [], builder_retrieval_db = retrieval_db, builder_pad_id = pad_id\<rparr>"

text \<open>
  \<^verbatim>\<open>np.pad(a, (0, n), 'constant', constant_values=v)\<close>: \<^verbatim>\<open>ValueError\<close> for a
  negative width. The constant, a Python integer, is stored into the array through a C
  long: \<^verbatim>\<open>OverflowError\<close> outside the signed 64-bit range, and inside it the constant
  takes the type of the array (its low bits).
\<close>

definition np_pad :: "np_dtype \<Rightarrow> int list \<Rightarrow> int \<Rightarrow> int \<Rightarrow> py_error + int list" where
  "np_pad d a n v =
     (if n < 0 then Inl ValueError
      else if \<not> in_range int64 v then Inl OverflowError
      else Inr (a @ replicate (nat n) (np_cast d v)))"

text \<open>\<^verbatim>\<open>add_item\<close>; the tensor is the list of its integer values.\<close>

definition add_item :: "Builder \<Rightarrow> int list \<Rightarrow> py_error + Builder" where
  "add_item self tensor =
     (let np_array = map (np_cast (builder_dtype self)) tensor in
      if builder_chunk_size self = 0 then Inl ZeroDivisionError
      else
        let padded_size =
              builder_chunk_size self - (int (length np_array) mod builder_chunk_size self);
            data_size = int (length np_array) + padded_size;
            padded_size1 = (if builder_retrieval_db self
                            then padded_size + builder_chunk_size self else padded_size)
        in
        and_then (np_pad (builder_dtype self) np_array padded_size1 (builder_pad_id self))
          (\<lambda>np_array1.
            Inr (self\<lparr>builder_data_file :=
                        builder_data_file self @ tobytes (builder_dtype self) np_array1,
                      builder_sizes := builder_sizes self @ [data_size]\<rparr>)))"

text \<open>\<^verbatim>\<open>merge_file_\<close>, given the contents of the other corpus's \<^verbatim>\<open>.idx\<close> and
  \<^verbatim>\<open>.bin\<close> files.\<close>

definition merge_file :: "Builder \<Rightarrow> byte list \<Rightarrow> byte list \<Rightarrow> py_error + Builder" where
  "merge_file self another_idx another_bin =
     and_then (Index_init another_idx) (\<lambda>index.
       if index_dtype index \<noteq> builder_dtype self then Inl AssertionError
       else Inr (self\<lparr>builder_sizes := builder_sizes self @ index_sizes index,
                      builder_data_file := builder_data_file self @ another_bin\<rparr>))"

text \<open>\<^verbatim>\<open>finalize\<close>: the contents of the index file and of the data file.\<close>

definition finalize :: "Builder \<Rightarrow> py_error + (byte list \<times> byte list)" where
  "finalize self =
     and_then (Writer_enter (builder_dtype self)) (\<lambda>file.
       case Writer_write (builder_dtype self) (builder_retrieval_db self) file
              (builder_sizes self) (builder_chunk_size self) of
         (file1, Some e) \<Rightarrow> Inl e
       | (file1, None) \<Rightarrow> Inr (file1, builder_data_file self))"

text \<open>A caller's loop over its documents: \<^verbatim>\<open>for t in docs: builder.add_item(t)\<close>.\<close>

fun add_items :: "Builder \<Rightarrow> int list list \<Rightarrow> py_error + Builder" where
  "add_items self [] = Inr self"
| "add_items self (t # ts) = and_then (add_item self t) (\<lambda>self1. add_items self1 ts)"

subsection \<open>Closed forms of the writer's loops\<close>

text \<open>The lists the loops of the writer build, as recursive functions of the sizes:
  \<open>w\<close> is the element size, \<open>g\<close> the bytes reserved after a document, \<open>a\<close> the
  running address and \<open>l\<close> the running chunk counter.\<close>

fun doc_pointers :: "int \<Rightarrow> int \<Rightarrow> int \<Rightarrow> int list \<Rightarrow> int list" where
  "doc_pointers w g a [] = []"
| "doc_pointers w g a (s # ss) = a # doc_pointers w g (a + s * w + g) ss"

fun chunk_starts :: "int \<Rightarrow> int \<Rightarrow> int list \<Rightarrow> int list" where
  "chunk_starts cs l [] = []"
| "chunk_starts cs l (s # ss) = l # chunk_starts cs (l + s div cs) ss"

fun chunk_addrs :: "int \<Rightarrow> int \<Rightarrow> int \<Rightarrow> int \<Rightarrow> int list \<Rightarrow> int list" where
  "chunk_addrs cs w g a [] = []"
| "chunk_addrs cs w g a (s # ss) =
     map (\<lambda>j. a + int j * (cs * w)) [0..<nat (s div cs)]
       @ chunk_addrs cs w g (a + int (nat (s div cs)) * (cs * w) + g) ss"

definition gap :: "np_dtype \<Rightarrow> bool \<Rightarrow> int \<Rightarrow> int" where
  "gap d rdb cs = (if rdb then cs * int (itemsize d) else 0)"

text \<open>Building a corpus from its documents: a new builder, \<^verbatim>\<open>add_item\<close> for each
  document, \<^verbatim>\<open>finalize\<close>. The result is the index file and the data file.\<close>

definition build_corpus ::
  "int \<Rightarrow> int \<Rightarrow> bool \<Rightarrow> np_dtype \<Rightarrow> int list list \<Rightarrow> py_error + (byte list \<times> byte list)" where
  "build_corpus chunk_size pad_id retrieval_db dtype docs =
     and_then (add_items (Builder_init chunk_size pad_id retrieval_db dtype) docs) finalize"

text \<open>The corpus of the concrete scenario: chunk size 4, 32-bit signed elements, pad
  value 0, no retrieval database, the documents \<open>[1,2,3,4,5]\<close> and \<open>[9,9]\<close>.\<close>

definition scenario_corpus :: "py_error + (byte list \<times> byte list)" where
  "scenario_corpus = build_corpus 4 0 False int32 [[1, 2, 3, 4, 5], [9, 9]]"

subsection \<open>What a builder stores\<close>

text \<open>The array \<^verbatim>\<open>add_item\<close> writes for a tensor \<open>t\<close>, and the size it records.\<close>

definition stored :: "np_dtype \<Rightarrow> int \<Rightarrow> bool \<Rightarrow> int \<Rightarrow> int list \<Rightarrow> int list" where
  "stored d cs rdb pad t =
     map (np_cast d) t
       @ replicate (nat (cs - int (length t) mod cs + (if rdb then cs else 0))) (np_cast d pad)"

definition recorded :: "int \<Rightarrow> int list \<Rightarrow> int" where
  "recorded cs t = int (length t) + (cs - int (length t) mod cs)"

text \<open>
  The index stores the sizes in 32 bits and the pointers, chunk ids and chunk addresses in
  64 bits. A corpus fits when every recorded size is below \<open>2^31\<close> and the data file is
  shorter than \<open>2^63\<close> bytes; the bounds below are sufficient for that.
\<close>

definition corpus_fits :: "np_dtype \<Rightarrow> int \<Rightarrow> int list list \<Rightarrow> bool" where
  "corpus_fits d cs docs \<longleftrightarrow>
     cs < 2 ^ 31 \<and> list_all (\<lambda>t. int (length t) + cs < 2 ^ 31) docs \<and>
     (\<Sum>t\<leftarrow>docs. int (length t) + 2 * cs) * int (itemsize d) < 2 ^ 63"

text \<open>The index of the sizes \<open>ss\<close>, as the writer computes it from them.\<close>

definition written_index :: "np_dtype \<Rightarrow> bool \<Rightarrow> int \<Rightarrow> int list \<Rightarrow> Index" where
  "written_index d rdb cs ss =
     \<lparr>index_dtype = d, index_dtype_size = int (itemsize d), index_len = int (length ss),
      index_chunk_size = cs,
      index_num_chunks = int (length (chunk_addrs cs (int (itemsize d)) (gap d rdb cs) 0 ss)),
      index_retrieval_db = rdb, index_sizes = ss,
      index_pointers = doc_pointers (int (itemsize d)) (gap d rdb cs) 0 ss,
      index_chunk_id_start = chunk_starts cs 0 ss,
      index_chunk_address = chunk_addrs cs (int (itemsize d)) (gap d rdb cs) 0 ss\<rparr>"

section \<open>Properties\<close>

subsection \<open>Bytes and arrays\<close>

lemma length_le_bytes [simp]: "length (le_bytes w n) = w"
  by (induction w arbitrary: n) auto

lemma uint_byte_of_mod: "uint (word_of_int (n mod 256) :: byte) = n mod 256"
  by (simp add: uint_word_of_int take_bit_eq_mod)

lemma from_le_le_bytes: "from_le (le_bytes w n) = n mod 256 ^ w"
proof (induction w arbitrary: n)
  case 0
  show ?case by simp
next
  case (Suc w)
  have "from_le (le_bytes (Suc w) n) = n mod 256 + 256 * ((n div 256) mod 256 ^ w)"
    by (simp add: Suc uint_byte_of_mod)
  also have "\<dots> = n mod (256 * 256 ^ w)"
    using zmod_zmult2_eq [of "256 ^ w" n 256] by simp
  finally show ?case by simp
qed

lemma from_le_nonneg: "0 \<le> from_le bs"
  by (induction bs) auto

lemma itemsize_pos [simp]: "0 < itemsize d"
  by (cases d) auto

lemma decode_encode: "decode d (encode d x) = np_cast d x"
proof -
  let ?m = "(256::int) ^ itemsize d"
  have m: "0 < ?m" by simp
  have ev: "?m = 2 * (?m div 2)"
    by (cases d) simp_all
  show ?thesis
  proof (cases "is_signed d")
    case False
    then show ?thesis by (simp add: decode_def encode_def np_cast_def from_le_le_bytes Let_def)
  next
    case True
    define h where "h = ?m div 2"
    have mh: "?m = 2 * h" using ev h_def by simp
    have hpos: "0 < h" using m mh by linarith
    define r where "r = x mod ?m"
    have r: "0 \<le> r" "r < ?m" by (simp_all add: r_def)
    have "(x + h) mod ?m = (r + h) mod ?m"
      unfolding r_def by (simp add: mod_add_left_eq)
    also have "\<dots> = (if h \<le> r then r + h - ?m else r + h)"
    proof (cases "h \<le> r")
      case True
      have "(r + h) mod ?m = (r + h - ?m) mod ?m" by (simp add: mod_diff_right_eq [symmetric] del: mod_diff_right_eq)
      also have "\<dots> = r + h - ?m" using True r mh by (intro mod_pos_pos_trivial) linarith+
      finally show ?thesis using True by simp
    next
      case False
      then have "(r + h) mod ?m = r + h" using r mh by (intro mod_pos_pos_trivial) linarith+
      then show ?thesis using False by simp
    qed
    finally have c: "(x + h) mod ?m - h = (if h \<le> r then r - ?m else r)" by simp
    show ?thesis
      using True c
      by (simp add: decode_def encode_def np_cast_def from_le_le_bytes Let_def h_def [symmetric] r_def [symmetric])
  qed
qed

lemma np_cast_in_range: "in_range d x \<Longrightarrow> np_cast d x = x"
proof -
  assume a: "in_range d x"
  let ?m = "(256::int) ^ itemsize d"
  have ev: "?m = 2 * (?m div 2)" by (cases d) simp_all
  show ?thesis
  proof (cases "is_signed d")
    case True
    with a have "0 \<le> x + ?m div 2" "x + ?m div 2 < ?m" using ev by (simp_all add: in_range_def Let_def) linarith
    then have "(x + ?m div 2) mod ?m = x + ?m div 2" by (rule mod_pos_pos_trivial)
    then show ?thesis using True by (simp add: np_cast_def Let_def)
  next
    case False
    with a show ?thesis by (simp add: np_cast_def in_range_def Let_def)
  qed
qed

lemma in_range_np_cast: "in_range d (np_cast d x)"
proof -
  let ?m = "(256::int) ^ itemsize d"
  have ev: "?m = 2 * (?m div 2)" by (cases d) simp_all
  have m: "0 < ?m" by simp
  have "0 \<le> (x + ?m div 2) mod ?m" "(x + ?m div 2) mod ?m < ?m" using m by simp_all
  then show ?thesis using ev
    by (auto simp add: np_cast_def in_range_def Let_def)
qed

lemma length_encode [simp]: "length (encode d x) = itemsize d"
  by (simp add: encode_def)

lemma length_tobytes [simp]: "length (tobytes d xs) = itemsize d * length xs"
  by (induction xs) (simp_all add: tobytes_def)

lemma tobytes_append [simp]: "tobytes d (xs @ ys) = tobytes d xs @ tobytes d ys"
  by (simp add: tobytes_def)

lemma tobytes_Cons: "tobytes d (x # xs) = encode d x @ tobytes d xs"
  by (simp add: tobytes_def)

lemma length_items [simp]: "length (items n w bs) = n"
  by (induction n arbitrary: bs) auto

lemma items_tobytes: "items (length xs) (itemsize d) (tobytes d xs @ rest) = map (encode d) xs"
  by (induction xs) (simp_all add: tobytes_Cons)

lemma frombuffer_tobytes:
  "frombuffer (pre @ tobytes d xs @ post) d (int (length xs)) (int (length pre)) =
     Inr (map (np_cast d) xs)"
proof -
  have "\<not> int (length xs) * int (itemsize d) + int (length post) < 0"
    by (metis add_nonneg_nonneg mult_nonneg_nonneg not_less of_nat_0_le_iff)
  then show ?thesis
    by (simp add: frombuffer_def Let_def items_tobytes decode_encode mult.commute)
qed

lemma frombuffer_elements:
  assumes "k + n \<le> length es"
  shows "frombuffer (tobytes d es) d (int n) (int (itemsize d) * int k) =
           Inr (map (np_cast d) (take n (drop k es)))"
proof -
  have es: "es = take k es @ take n (drop k es) @ drop (k + n) es"
    by (metis append_take_drop_id drop_drop add.commute)
  have lk: "length (take k es) = k" and ln: "length (take n (drop k es)) = n"
    using assms by simp_all
  have "frombuffer (tobytes d (take k es) @ tobytes d (take n (drop k es)) @ tobytes d (drop (k + n) es)) d
          (int (length (take n (drop k es)))) (int (length (tobytes d (take k es)))) =
        Inr (map (np_cast d) (take n (drop k es)))"
    by (rule frombuffer_tobytes)
  moreover have "tobytes d (take k es) @ tobytes d (take n (drop k es)) @ tobytes d (drop (k + n) es) = tobytes d es"
    using es by (metis tobytes_append)
  ultimately show ?thesis
    using lk ln by simp
qed

lemma np_cast_idem [simp]: "np_cast d (np_cast d x) = np_cast d x"
  by (rule np_cast_in_range) (rule in_range_np_cast)

lemma stream_read_at:
  "length pre = pos \<Longrightarrow> length x = n \<Longrightarrow> stream_read (pre @ x @ post) pos n = x"
  by (simp add: stream_read_def)

lemma unpack_le_bytes: "0 \<le> n \<Longrightarrow> n < 256 ^ w \<Longrightarrow> unpack_le w (le_bytes w n) = Inr n"
  by (simp add: unpack_le_def from_le_le_bytes)

lemma code_dtypes: "\<exists>c. code d = Inr c \<and> 0 \<le> c \<and> c < 256 \<and> dict_get dtypes c = Inr d"
  by (cases d) (simp_all add: code_def dtypes_def dict_get_def)

lemma length_HDR_MAGIC [simp]: "length HDR_MAGIC = 9"
  by (simp add: HDR_MAGIC_def)

subsection \<open>Reading back a written index\<close>

lemma and_then_Inr [simp]: "and_then (Inr x) f = f x"
  by (simp add: and_then_def)

lemma and_then_Inl [simp]: "and_then (Inl e) f = Inl e"
  by (simp add: and_then_def)

lemma frombuffer_at:
  "file = pre @ tobytes d xs @ post \<Longrightarrow> off = int (length pre) \<Longrightarrow> cnt = int (length xs) \<Longrightarrow>
     frombuffer file d cnt off = Inr (map (np_cast d) xs)"
  by (simp add: frombuffer_tobytes)

lemma stream_read_in:
  "file = pre @ x @ post \<Longrightarrow> length pre = pos \<Longrightarrow> length x = n \<Longrightarrow> stream_read file pos n = x"
  by (simp add: stream_read_def)

lemma Index_init_bytes:
  assumes c: "0 \<le> c" "c < 256" "dict_get dtypes c = Inr d"
    and n: "n = int (length S)" "n < 2 ^ 64" "length P = length S" "length C = length S"
    and cs: "0 \<le> cs" "cs < 2 ^ 64"
    and m: "m = int (length A)" "m < 2 ^ 64"
    and r: "0 \<le> r" "r < 256"
    and fl: "file = HDR_MAGIC @ le_bytes 8 1 @ le_bytes 1 c @ le_bytes 8 n @ le_bytes 8 cs
                 @ le_bytes 8 m @ le_bytes 1 r
                 @ tobytes int32 S @ tobytes int64 P @ tobytes int64 C @ tobytes int64 A"
  shows "Index_init file =
           Inr \<lparr>index_dtype = d, index_dtype_size = int (itemsize d), index_len = n,
                index_chunk_size = cs, index_num_chunks = m, index_retrieval_db = (r \<noteq> 0),
                index_sizes = map (np_cast int32) S, index_pointers = map (np_cast int64) P,
                index_chunk_id_start = map (np_cast int64) C,
                index_chunk_address = map (np_cast int64) A\<rparr>"
proof -
  define arrays where
    "arrays = tobytes int32 S @ tobytes int64 P @ tobytes int64 C @ tobytes int64 A"
  have fl': "file = HDR_MAGIC @ le_bytes 8 1 @ le_bytes 1 c @ le_bytes 8 n @ le_bytes 8 cs
                 @ le_bytes 8 m @ le_bytes 1 r @ arrays"
    by (simp add: fl arrays_def)
  have r0: "stream_read file 0 9 = HDR_MAGIC"
    by (rule stream_read_in [where pre = "[]"]) (simp_all add: fl')
  have r1: "stream_read file 9 8 = le_bytes 8 1"
    by (rule stream_read_in [where pre = HDR_MAGIC]) (simp_all add: fl')
  have r2: "stream_read file 17 1 = le_bytes 1 c"
    by (rule stream_read_in [where pre = "HDR_MAGIC @ le_bytes 8 1"]) (simp_all add: fl')
  have r3: "stream_read file 18 8 = le_bytes 8 n"
    by (rule stream_read_in [where pre = "HDR_MAGIC @ le_bytes 8 1 @ le_bytes 1 c"])
      (simp_all add: fl')
  have r4: "stream_read file 26 8 = le_bytes 8 cs"
    by (rule stream_read_in [where pre = "HDR_MAGIC @ le_bytes 8 1 @ le_bytes 1 c @ le_bytes 8 n"])
      (simp_all add: fl')
  have r5: "stream_read file 34 8 = le_bytes 8 m"
    by (rule stream_read_in
          [where pre = "HDR_MAGIC @ le_bytes 8 1 @ le_bytes 1 c @ le_bytes 8 n @ le_bytes 8 cs"])
      (simp_all add: fl')
  have r6: "stream_read file 42 1 = le_bytes 1 r"
    by (rule stream_read_in
          [where pre = "HDR_MAGIC @ le_bytes 8 1 @ le_bytes 1 c @ le_bytes 8 n @ le_bytes 8 cs
                          @ le_bytes 8 m"])
      (simp_all add: fl')
  define hdr where "hdr = HDR_MAGIC @ le_bytes 8 1 @ le_bytes 1 c @ le_bytes 8 n @ le_bytes 8 cs
                 @ le_bytes 8 m @ le_bytes 1 r"
  have lh: "length hdr = 43" by (simp add: hdr_def)
  have fh: "file = hdr @ tobytes int32 S @ tobytes int64 P @ tobytes int64 C @ tobytes int64 A"
    by (simp add: fl hdr_def)
  have f1: "frombuffer file int32 n 43 = Inr (map (np_cast int32) S)"
    by (rule frombuffer_at [where pre = hdr]) (simp_all add: fh lh n)
  have f2: "frombuffer file int64 n (43 + 4 * int (length S)) = Inr (map (np_cast int64) P)"
    by (rule frombuffer_at [where pre = "hdr @ tobytes int32 S"]) (simp_all add: fh lh n)
  have f3: "frombuffer file int64 n (43 + 4 * int (length S) + 8 * int (length S)) =
              Inr (map (np_cast int64) C)"
    by (rule frombuffer_at [where pre = "hdr @ tobytes int32 S @ tobytes int64 P"])
      (simp_all add: fh lh n)
  have f4: "frombuffer file int64 m
              (43 + 4 * int (length S) + 8 * int (length S) + 8 * int (length S)) =
              Inr (map (np_cast int64) A)"
    by (rule frombuffer_at
          [where pre = "hdr @ tobytes int32 S @ tobytes int64 P @ tobytes int64 C" and post = "[]"])
      (simp_all add: fh lh n m)
  have u1: "unpack_le 8 (le_bytes 8 1) = Inr 1" by (rule unpack_le_bytes) simp_all
  have u2: "unpack_le 1 (le_bytes 1 c) = Inr c" using c by (intro unpack_le_bytes) simp_all
  have u3: "unpack_le 8 (le_bytes 8 n) = Inr n" using n by (intro unpack_le_bytes) simp_all
  have u4: "unpack_le 8 (le_bytes 8 cs) = Inr cs" using cs by (intro unpack_le_bytes) simp_all
  have u5: "unpack_le 8 (le_bytes 8 m) = Inr m" using m by (intro unpack_le_bytes) simp_all
  have u6: "unpack_le 1 (le_bytes 1 r) = Inr r" using r by (intro unpack_le_bytes) simp_all
  have l: "length (map (np_cast int32) S) = length S" "length (map (np_cast int64) P) = length S"
    "length (map (np_cast int64) C) = length S"
    using n by simp_all
  show ?thesis
    unfolding Index_init_def Let_def r0 r1 r2 r3 r4 r5 r6 u1 u2 u3 u4 u5 u6 and_then_Inr
    by (simp only: c f1 f2 f3 f4 l and_then_Inr simp_thms if_False if_True)
qed

subsection \<open>The writer's arrays\<close>

lemma get_pointers_loop_eq:
  "get_pointers_loop d rdb cs ss a ptrs = ptrs @ doc_pointers (int (itemsize d)) (gap d rdb cs) a ss"
  by (induction ss arbitrary: a ptrs) (simp_all add: Let_def gap_def)

lemma get_pointers_eq:
  "get_pointers d rdb ss cs = doc_pointers (int (itemsize d)) (gap d rdb cs) 0 ss"
  by (simp add: get_pointers_def get_pointers_loop_eq)

lemma length_doc_pointers [simp]: "length (doc_pointers w g a ss) = length ss"
  by (induction ss arbitrary: a) simp_all

lemma doc_pointers_nth:
  "i < length ss \<Longrightarrow>
     doc_pointers w g a ss ! i = a + sum_list (take i ss) * w + int i * g"
proof (induction ss arbitrary: a i)
  case Nil
  then show ?case by simp
next
  case (Cons s ss)
  show ?case
  proof (cases i)
    case 0
    then show ?thesis by simp
  next
    case (Suc k)
    with Cons.prems have "k < length ss" by simp
    from Cons.IH [OF this, of "a + s * w + g"] Suc show ?thesis
      by (simp add: algebra_simps)
  qed
qed

lemma chunk_loop_eq:
  "chunk_loop n step a ptrs = (a + int n * step, ptrs @ map (\<lambda>j. a + int j * step) [0..<n])"
proof (induction n arbitrary: a ptrs)
  case 0
  show ?case by simp
next
  case (Suc n)
  have "map (\<lambda>j. a + int j * step) [0..<Suc n] = a # map (\<lambda>j. a + step + int j * step) [0..<n]"
    by (simp add: upt_conv_Cons map_Suc_upt [symmetric] algebra_simps del: upt_Suc)
  then show ?case
    by (simp add: Suc algebra_simps del: upt_Suc)
qed

lemma chunk_arrays_loop_ok:
  assumes "cs \<noteq> 0" "\<forall>s\<in>set ss. s mod cs = 0"
  shows "get_chunk_id_and_address_loop d rdb cs ss cids l a ptrs =
           Inr (cids @ chunk_starts cs l ss,
                ptrs @ chunk_addrs cs (int (itemsize d)) (gap d rdb cs) a ss)"
  using assms
  by (induction ss arbitrary: cids l a ptrs) (simp_all add: Let_def chunk_loop_eq gap_def)

lemma chunk_arrays_loop_misaligned:
  assumes "cs \<noteq> 0" "\<exists>s\<in>set ss. s mod cs \<noteq> 0"
  shows "get_chunk_id_and_address_loop d rdb cs ss cids l a ptrs = Inl ValueError"
  using assms
proof (induction ss arbitrary: cids l a ptrs)
  case Nil
  then show ?case by simp
next
  case (Cons s ss)
  show ?case
  proof (cases "s mod cs = 0")
    case True
    with Cons.prems have "\<exists>s\<in>set ss. s mod cs \<noteq> 0" by auto
    with Cons.IH Cons.prems(1) True show ?thesis
      by (simp add: Let_def chunk_loop_eq)
  next
    case False
    with Cons.prems(1) show ?thesis by (simp add: Let_def)
  qed
qed

lemma chunk_arrays_ok:
  "cs \<noteq> 0 \<Longrightarrow> \<forall>s\<in>set ss. s mod cs = 0 \<Longrightarrow>
     get_chunk_id_and_address d rdb ss cs =
       Inr (chunk_starts cs 0 ss, chunk_addrs cs (int (itemsize d)) (gap d rdb cs) 0 ss)"
  by (simp add: get_chunk_id_and_address_def chunk_arrays_loop_ok)

lemma chunk_arrays_misaligned:
  "cs \<noteq> 0 \<Longrightarrow> \<exists>s\<in>set ss. s mod cs \<noteq> 0 \<Longrightarrow>
     get_chunk_id_and_address d rdb ss cs = Inl ValueError"
  by (simp add: get_chunk_id_and_address_def chunk_arrays_loop_misaligned)

lemma length_chunk_starts [simp]: "length (chunk_starts cs l ss) = length ss"
  by (induction ss arbitrary: l) simp_all

lemma chunk_starts_nth:
  "i < length ss \<Longrightarrow> chunk_starts cs l ss ! i = l + sum_list (map (\<lambda>s. s div cs) (take i ss))"
proof (induction ss arbitrary: l i)
  case Nil
  then show ?case by simp
next
  case (Cons s ss)
  show ?case
  proof (cases i)
    case 0
    then show ?thesis by simp
  next
    case (Suc k)
    with Cons.prems have "k < length ss" by simp
    from Cons.IH [OF this, of "l + s div cs"] Suc show ?thesis by simp
  qed
qed

text \<open>
  Claim C3 (pointer layout). For every list of sizes, \<^verbatim>\<open>_get_pointers\<close> returns one
  pointer per document; the first pointer is 0, and the pointer of document \<open>i + 1\<close>
  exceeds the pointer of document \<open>i\<close> by \<open>sizes[i] * dtype_size\<close>, plus
  \<open>chunk_size * dtype_size\<close> when \<open>retrieval_db\<close> is set.
\<close>

theorem pointer_layout:
  "length (get_pointers dtype retrieval_db sizes chunk_size) = length sizes \<and>
   (sizes \<noteq> [] \<longrightarrow> get_pointers dtype retrieval_db sizes chunk_size ! 0 = 0) \<and>
   (\<forall>i. Suc i < length sizes \<longrightarrow>
      get_pointers dtype retrieval_db sizes chunk_size ! Suc i
        - get_pointers dtype retrieval_db sizes chunk_size ! i =
      (if retrieval_db
       then sizes ! i * int (itemsize dtype) + chunk_size * int (itemsize dtype)
       else sizes ! i * int (itemsize dtype)))"
proof (intro conjI allI impI)
  show "length (get_pointers dtype retrieval_db sizes chunk_size) = length sizes"
    by (simp add: get_pointers_eq)
next
  assume "sizes \<noteq> []"
  then show "get_pointers dtype retrieval_db sizes chunk_size ! 0 = 0"
    by (simp add: get_pointers_eq doc_pointers_nth)
next
  fix i
  assume i: "Suc i < length sizes"
  then have "take (Suc i) sizes = take i sizes @ [sizes ! i]"
    by (simp add: take_Suc_conv_app_nth)
  with i show "get_pointers dtype retrieval_db sizes chunk_size ! Suc i
        - get_pointers dtype retrieval_db sizes chunk_size ! i =
      (if retrieval_db
       then sizes ! i * int (itemsize dtype) + chunk_size * int (itemsize dtype)
       else sizes ! i * int (itemsize dtype))"
    by (simp add: get_pointers_eq doc_pointers_nth gap_def algebra_simps)
qed

theorem pointer_layout_witness:
  "get_pointers int32 True [8, 4, 12] 4 ! 0 = 0 \<and>
   get_pointers int32 True [8, 4, 12] 4 ! 2 - get_pointers int32 True [8, 4, 12] 4 ! 1 = 4 * 4 + 4 * 4"
  using pointer_layout [of int32 True "[8, 4, 12]" 4]
  by (simp add: numeral_2_eq_2)

subsection \<open>The claims about single operations\<close>

text \<open>
  Claim C1 (concrete scenario). With chunk size 4, 32-bit signed elements, pad value 0
  and no retrieval database, \<^verbatim>\<open>add_item([1,2,3,4,5])\<close>, \<^verbatim>\<open>add_item([9,9])\<close> and
  \<^verbatim>\<open>finalize\<close> store the padded documents \<open>[1,2,3,4,5,0,0,0]\<close> and \<open>[9,9,0,0]\<close>;
  the index read back has 2 documents, 3 chunks, sizes \<open>[8,4]\<close>, chunk id starts
  \<open>[0,2]\<close> and chunk addresses \<open>[0,16,32]\<close>; \<^verbatim>\<open>get(0)\<close> returns
  \<open>[1,2,3,4,5,0,0,0]\<close> and \<^verbatim>\<open>get_chunk(2)\<close> returns \<open>[9,9,0,0]\<close>.
\<close>

theorem concrete_scenario:
  "map_sum id snd scenario_corpus = Inr (tobytes int32 [1, 2, 3, 4, 5, 0, 0, 0, 9, 9, 0, 0]) \<and>
   and_then scenario_corpus (\<lambda>(idx, bin). Index_init idx) =
     Inr \<lparr>index_dtype = int32, index_dtype_size = 4, index_len = 2, index_chunk_size = 4,
          index_num_chunks = 3, index_retrieval_db = False, index_sizes = [8, 4],
          index_pointers = [0, 32], index_chunk_id_start = [0, 2],
          index_chunk_address = [0, 16, 32]\<rparr> \<and>
   and_then scenario_corpus (\<lambda>(idx, bin).
     and_then (Dataset_init idx bin) (\<lambda>ds. Dataset_get ds 0 0 None)) =
     Inr [1, 2, 3, 4, 5, 0, 0, 0] \<and>
   and_then scenario_corpus (\<lambda>(idx, bin).
     and_then (Dataset_init idx bin) (\<lambda>ds. Dataset_get_chunk ds (IntKey 2) False)) =
     Inr (Array [9, 9, 0, 0])"
  unfolding scenario_corpus_def build_corpus_def by code_simp

text \<open>
  Claim C5 (alignment enforcement). For a chunk size other than zero: when some size is
  not a multiple of the chunk size, \<^verbatim>\<open>_get_chunk_id_and_address\<close> raises the
  \<^verbatim>\<open>ValueError\<close> of the alignment test and \<^verbatim>\<open>write\<close> raises it with the index
  file left as it was; when every size is a multiple, the chunk arrays are computed (one
  chunk id start per document) and \<^verbatim>\<open>write\<close> does not raise \<^verbatim>\<open>ValueError\<close>.
\<close>

theorem alignment_enforcement:
  assumes "chunk_size \<noteq> 0"
  shows "((\<exists>s\<in>set sizes. s mod chunk_size \<noteq> 0) \<longrightarrow>
            get_chunk_id_and_address dtype retrieval_db sizes chunk_size = Inl ValueError \<and>
            Writer_write dtype retrieval_db file sizes chunk_size = (file, Some ValueError)) \<and>
         ((\<forall>s\<in>set sizes. s mod chunk_size = 0) \<longrightarrow>
            (\<exists>chunk_ids chunk_address.
               get_chunk_id_and_address dtype retrieval_db sizes chunk_size =
                 Inr (chunk_ids, chunk_address) \<and>
               length chunk_ids = length sizes) \<and>
            snd (Writer_write dtype retrieval_db file sizes chunk_size) \<noteq> Some ValueError)"
proof (intro conjI impI)
  assume m: "\<exists>s\<in>set sizes. s mod chunk_size \<noteq> 0"
  show e: "get_chunk_id_and_address dtype retrieval_db sizes chunk_size = Inl ValueError"
    using assms m by (rule chunk_arrays_misaligned)
  show "Writer_write dtype retrieval_db file sizes chunk_size = (file, Some ValueError)"
    by (simp add: Writer_write_def e)
next
  assume a: "\<forall>s\<in>set sizes. s mod chunk_size = 0"
  note ok = chunk_arrays_ok [OF assms a, of dtype retrieval_db]
  show "\<exists>chunk_ids chunk_address.
          get_chunk_id_and_address dtype retrieval_db sizes chunk_size =
            Inr (chunk_ids, chunk_address) \<and>
          length chunk_ids = length sizes"
    using ok by simp
  show "snd (Writer_write dtype retrieval_db file sizes chunk_size) \<noteq> Some ValueError"
    by (simp add: Writer_write_def ok pack_Q_def pack_B_def)
qed

theorem alignment_enforcement_witness:
  "Writer_write int32 False [] [8, 6] 4 = ([], Some ValueError) \<and>
   get_chunk_id_and_address int32 False [8, 4] 4 = Inr ([0, 2], [0, 16, 32]) \<and>
   snd (Writer_write int32 False [] [8, 4] 4) \<noteq> Some ValueError"
proof -
  have n: "(4::int) \<noteq> 0" by simp
  have a: "\<exists>s\<in>set [8, 6::int]. s mod 4 \<noteq> 0" by simp
  have b: "\<forall>s\<in>set [8, 4::int]. s mod 4 = 0" by simp
  have c: "get_chunk_id_and_address int32 False [8, 4] 4 = Inr ([0, 2], [0, 16, 32])"
    by code_simp
  from alignment_enforcement [OF n, of "[8, 6]" int32 False "[]"] a
  have "Writer_write int32 False [] [8, 6] 4 = ([], Some ValueError)" by blast
  moreover from alignment_enforcement [OF n, of "[8, 4]" int32 False "[]"] b
  have "snd (Writer_write int32 False [] [8, 4] 4) \<noteq> Some ValueError" by blast
  ultimately show ?thesis using c by simp
qed

text \<open>
  Claim C10 (\<^verbatim>\<open>Index.get_chunk\<close>), as the code has it. For every index and every
  integer argument the method raises \<^verbatim>\<open>NameError\<close>: the name \<open>i\<close> it reads is bound
  nowhere. For a list, which is unhashable, the \<^verbatim>\<open>lru_cache\<close> wrapper raises
  \<^verbatim>\<open>TypeError\<close> before the body runs. For no argument does the method return a pair.
  The dataset's \<^verbatim>\<open>get_chunk\<close> on an integer goes through \<^verbatim>\<open>get_chunk_address\<close>.
\<close>

theorem Index_get_chunk_NameError:
  "Index_get_chunk self (IntArg chunk_id) = Inl NameError \<and>
   Index_get_chunk self (ListArg xs) = Inl TypeError \<and>
   (\<exists>e. Index_get_chunk self arg = Inl e) \<and>
   Dataset_get_chunk ds (IntKey chunk_id) force_no_padding =
     and_then (Index_get_chunk_address (ds_index ds) chunk_id) (\<lambda>ptr.
     and_then (frombuffer (ds_bin_buffer ds) (index_dtype (ds_index ds))
                 (if index_retrieval_db (ds_index ds) then index_chunk_size (ds_index ds) * 2
                  else index_chunk_size (ds_index ds)) ptr)
       (\<lambda>np_array. Inr (Array np_array)))"
proof -
  have n: "Index_get_chunk self (IntArg c) = Inl NameError" for c
    by (simp add: lookup_name_def module_names_def)
  have t: "Index_get_chunk self (ListArg l) = Inl TypeError" for l
    by simp
  have e: "\<exists>e. Index_get_chunk self arg = Inl e"
  proof (cases arg)
    case (IntArg c)
    then show ?thesis using n by blast
  next
    case (ListArg l)
    then show ?thesis using t by blast
  qed
  have d: "Dataset_get_chunk ds (IntKey chunk_id) force_no_padding =
     and_then (Index_get_chunk_address (ds_index ds) chunk_id) (\<lambda>ptr.
     and_then (frombuffer (ds_bin_buffer ds) (index_dtype (ds_index ds))
                 (if index_retrieval_db (ds_index ds) then index_chunk_size (ds_index ds) * 2
                  else index_chunk_size (ds_index ds)) ptr)
       (\<lambda>np_array. Inr (Array np_array)))"
    by (simp add: Dataset_get_chunk_def Let_def)
  from n t e d show ?thesis by blast
qed

text \<open>The claim as stated fails for an argument that is not hashable: on the index of
  the scenario corpus \<^verbatim>\<open>get_chunk([0])\<close> raises \<^verbatim>\<open>TypeError\<close>, not \<^verbatim>\<open>NameError\<close>.\<close>

theorem unhashable_argument_counterexample:
  "and_then scenario_corpus (\<lambda>(idx, bin).
     and_then (Index_init idx) (\<lambda>index.
       Index_get_chunk index (ListArg [0]))) = Inl TypeError \<and>
   TypeError \<noteq> NameError"
  unfolding scenario_corpus_def build_corpus_def by code_simp

subsection \<open>The builder's loop in closed form\<close>

lemma pad_bounds:
  assumes "0 < (cs::int)"
  shows "0 < cs - n mod cs" "cs - n mod cs \<le> cs" "(n + (cs - n mod cs)) mod cs = 0"
proof -
  have "0 \<le> n mod cs" "n mod cs < (cs::int)" using assms by simp_all
  then show "0 < cs - n mod cs" "cs - n mod cs \<le> cs" by linarith+
  have "(n + (cs - n mod cs)) mod cs = (n - n mod cs + cs) mod cs" by (simp add: algebra_simps)
  also have "\<dots> = (n - n mod cs) mod cs" by simp
  also have "\<dots> = 0" by (simp add: minus_mod_eq_mult_div)
  finally show "(n + (cs - n mod cs)) mod cs = 0" .
qed

lemma add_item_eq:
  assumes "0 < builder_chunk_size b" and "in_range int64 (builder_pad_id b)"
  shows "add_item b t =
           Inr (b\<lparr>builder_data_file := builder_data_file b
                     @ tobytes (builder_dtype b)
                         (stored (builder_dtype b) (builder_chunk_size b) (builder_retrieval_db b)
                            (builder_pad_id b) t),
                   builder_sizes := builder_sizes b @ [recorded (builder_chunk_size b) t]\<rparr>)"
proof -
  let ?cs = "builder_chunk_size b"
  have p: "0 < ?cs - int (length t) mod ?cs" using assms(1) by (rule pad_bounds)
  then have "\<not> ?cs - int (length t) mod ?cs + ?cs < 0" "\<not> ?cs - int (length t) mod ?cs < 0"
    using assms(1) by linarith+
  with assms show ?thesis
    by (simp add: add_item_def np_pad_def stored_def recorded_def Let_def)
qed

lemma add_items_eq:
  assumes "0 < builder_chunk_size b" and "in_range int64 (builder_pad_id b)"
  shows "add_items b docs =
           Inr (b\<lparr>builder_data_file := builder_data_file b
                     @ tobytes (builder_dtype b)
                         (concat (map (stored (builder_dtype b) (builder_chunk_size b)
                                         (builder_retrieval_db b) (builder_pad_id b)) docs)),
                   builder_sizes := builder_sizes b @ map (recorded (builder_chunk_size b)) docs\<rparr>)"
  using assms
proof (induction docs arbitrary: b)
  case Nil
  show ?case by (simp add: tobytes_def)
next
  case (Cons t ts)
  let ?b1 = "b\<lparr>builder_data_file := builder_data_file b
                     @ tobytes (builder_dtype b)
                         (stored (builder_dtype b) (builder_chunk_size b) (builder_retrieval_db b)
                            (builder_pad_id b) t),
                   builder_sizes := builder_sizes b @ [recorded (builder_chunk_size b) t]\<rparr>"
  have cs1: "0 < builder_chunk_size ?b1" "in_range int64 (builder_pad_id ?b1)"
    using Cons.prems by simp_all
  show ?case
    by (simp add: add_item_eq [OF Cons.prems] Cons.IH [OF cs1])
qed

lemma recorded_props:
  assumes "0 < cs"
  shows "recorded cs t mod cs = 0" "0 < recorded cs t" "cs \<le> recorded cs t"
    "recorded cs t \<le> int (length t) + cs"
proof -
  note p = pad_bounds [OF assms, of "int (length t)"]
  show "recorded cs t mod cs = 0" using p(3) by (simp add: recorded_def)
  show "0 < recorded cs t" using p(1) by (simp add: recorded_def)
  show "recorded cs t \<le> int (length t) + cs" using p(2) by (simp add: recorded_def)
  have "recorded cs t \<noteq> 0" using \<open>0 < recorded cs t\<close> by simp
  with \<open>recorded cs t mod cs = 0\<close> \<open>0 < recorded cs t\<close> assms show "cs \<le> recorded cs t"
    by (metis mod_pos_pos_trivial not_le order_less_imp_le)
qed

lemma length_stored:
  assumes "0 < cs"
  shows "int (length (stored d cs rdb pad t)) = recorded cs t + (if rdb then cs else 0)"
proof -
  define m where "m = int (length t) mod cs"
  have m: "0 \<le> m" "m < cs" using assms by (simp_all add: m_def)
  show ?thesis
    unfolding stored_def recorded_def m_def [symmetric] using m assms by simp
qed



subsection \<open>Bounds on the writer's arrays\<close>

lemma doc_pointers_bounds:
  assumes "0 \<le> w" "0 \<le> g" "\<forall>s\<in>set ss. 0 \<le> s"
  shows "\<forall>x\<in>set (doc_pointers w g a ss). a \<le> x \<and> x \<le> a + (\<Sum>s\<leftarrow>ss. s * w + g)"
  using assms(3)
proof (induction ss arbitrary: a)
  case Nil
  show ?case by simp
next
  case (Cons s ss)
  have s: "0 \<le> s * w + g" using Cons.prems assms(1,2) by simp
  have t: "0 \<le> (\<Sum>s\<leftarrow>ss. s * w + g)"
    using Cons.prems assms(1,2) by (intro sum_list_nonneg) auto
  from Cons.IH [of "a + s * w + g"] Cons.prems
  have "\<forall>x\<in>set (doc_pointers w g (a + s * w + g) ss).
          a + s * w + g \<le> x \<and> x \<le> a + s * w + g + (\<Sum>s\<leftarrow>ss. s * w + g)" by simp
  with s t show ?case by (auto simp: algebra_simps)
qed

lemma chunk_starts_bounds:
  assumes "0 < cs" "\<forall>s\<in>set ss. 0 \<le> s"
  shows "\<forall>x\<in>set (chunk_starts cs l ss). l \<le> x \<and> x \<le> l + (\<Sum>s\<leftarrow>ss. s div cs)"
  using assms(2)
proof (induction ss arbitrary: l)
  case Nil
  show ?case by simp
next
  case (Cons s ss)
  have s: "0 \<le> s div cs" using Cons.prems assms(1) by (simp add: pos_imp_zdiv_nonneg_iff)
  have t: "0 \<le> (\<Sum>s\<leftarrow>ss. s div cs)"
    using Cons.prems assms(1) by (intro sum_list_nonneg) (auto simp: pos_imp_zdiv_nonneg_iff)
  from Cons.IH [of "l + s div cs"] Cons.prems
  have "\<forall>x\<in>set (chunk_starts cs (l + s div cs) ss).
          l + s div cs \<le> x \<and> x \<le> l + s div cs + (\<Sum>s\<leftarrow>ss. s div cs)" by simp
  with s t show ?case by (auto simp: algebra_simps)
qed

lemma aligned_div_mult:
  "s mod cs = 0 \<Longrightarrow> 0 \<le> s \<Longrightarrow> 0 < cs \<Longrightarrow> int (nat (s div cs)) * cs = (s::int)"
  by (simp add: pos_imp_zdiv_nonneg_iff mod_0_imp_dvd)

lemma chunk_addrs_bounds:
  assumes "0 < cs" "0 < w" "0 \<le> g" "\<forall>s\<in>set ss. 0 \<le> s \<and> s mod cs = 0"
  shows "\<forall>x\<in>set (chunk_addrs cs w g a ss).
           a \<le> x \<and> x + cs * w + g \<le> a + (\<Sum>s\<leftarrow>ss. s * w + g)"
  using assms(4)
proof (induction ss arbitrary: a)
  case Nil
  show ?case by simp
next
  case (Cons s ss)
  have s0: "0 \<le> s" and sm: "s mod cs = 0" using Cons.prems by simp_all
  have n: "int (nat (s div cs)) * cs = s" using sm s0 assms(1) by (rule aligned_div_mult)
  have t: "0 \<le> (\<Sum>s\<leftarrow>ss. s * w + g)"
    using Cons.prems assms(2,3) by (intro sum_list_nonneg) auto
  have a': "a + int (nat (s div cs)) * (cs * w) + g = a + s * w + g"
    using n by (metis mult.assoc)
  from Cons.IH [of "a + s * w + g"] Cons.prems
  have tl: "\<forall>x\<in>set (chunk_addrs cs w g (a + s * w + g) ss).
          a + s * w + g \<le> x \<and> x + cs * w + g \<le> a + s * w + g + (\<Sum>s\<leftarrow>ss. s * w + g)" by simp
  have hd: "a \<le> a + int j * (cs * w) \<and>
            a + int j * (cs * w) + cs * w + g \<le> a + (s * w + g) + (\<Sum>s\<leftarrow>ss. s * w + g)"
    if "j < nat (s div cs)" for j
  proof -
    have "int j + 1 \<le> int (nat (s div cs))" using that by linarith
    then have "(int j + 1) * cs \<le> int (nat (s div cs)) * cs"
      using assms(1) by (intro mult_right_mono) simp_all
    then have "(int j + 1) * cs \<le> s" using n by simp
    then have "(int j + 1) * cs * w \<le> s * w"
      using assms(2) by (intro mult_right_mono) simp_all
    moreover have "0 \<le> int j * (cs * w)" using assms(1,2) by simp
    ultimately show ?thesis using t by (simp add: algebra_simps)
  qed
  have sw: "0 \<le> s * w" using s0 assms(2) by simp
  show ?case
    unfolding chunk_addrs.simps a' using hd tl sw assms(3)
    by (auto simp: algebra_simps)
qed



lemma length_chunk_addrs:
  "length (chunk_addrs cs w g a ss) = (\<Sum>s\<leftarrow>ss. nat (s div cs))"
  by (induction ss arbitrary: a) simp_all

lemma length_chunk_addrs_le:
  assumes "0 < cs" "\<forall>s\<in>set ss. 0 \<le> s"
  shows "int (length (chunk_addrs cs w g a ss)) \<le> sum_list ss"
  unfolding length_chunk_addrs using assms(2)
proof (induction ss)
  case Nil
  show ?case by simp
next
  case (Cons s ss)
  have "0 \<le> s" using Cons.prems by simp
  then have "s div cs \<le> s"
    by (metis div_0 int_div_le_self leI nle_le)
  moreover have "0 \<le> s div cs" using Cons.prems assms(1) by (simp add: pos_imp_zdiv_nonneg_iff)
  ultimately show ?case using Cons by simp
qed

subsection \<open>Finalizing and reopening\<close>

lemma map_np_cast_id: "\<forall>x\<in>set xs. in_range d x \<Longrightarrow> map (np_cast d) xs = xs"
  by (induction xs) (simp_all add: np_cast_in_range)

lemma in_range_int64: "0 \<le> x \<Longrightarrow> x < 2 ^ 63 \<Longrightarrow> in_range int64 x"
  by (simp add: in_range_def)

lemma in_range_int32: "0 \<le> x \<Longrightarrow> x < 2 ^ 31 \<Longrightarrow> in_range int32 x"
  by (simp add: in_range_def)

lemma gap_nonneg: "0 < cs \<Longrightarrow> 0 \<le> gap d rdb cs"
  by (simp add: gap_def)

lemma sum_list_le_bytes:
  assumes "0 < (w::int)" "0 \<le> g" "\<forall>s\<in>set ss. 0 \<le> s"
  shows "sum_list ss \<le> (\<Sum>s\<leftarrow>ss. s * w + g)"
  using assms(3)
proof (induction ss)
  case Nil
  show ?case by simp
next
  case (Cons s ss)
  have "0 \<le> s" using Cons.prems by simp
  then have "s * 1 \<le> s * w" using assms(1) by (intro mult_left_mono) simp_all
  with Cons assms(2) show ?case by simp
qed

lemma sum_div_le:
  assumes "0 < (cs::int)" "\<forall>s\<in>set ss. 0 \<le> s"
  shows "(\<Sum>s\<leftarrow>ss. s div cs) \<le> sum_list ss"
  using assms(2)
proof (induction ss)
  case Nil
  show ?case by simp
next
  case (Cons s ss)
  have "0 \<le> s" using Cons.prems by simp
  then have "s div cs \<le> s"
    by (metis div_0 int_div_le_self leI nle_le)
  with Cons show ?case by simp
qed

lemma finalize_written:
  fixes b :: Builder
  defines "d \<equiv> builder_dtype b" and "rdb \<equiv> builder_retrieval_db b"
    and "cs \<equiv> builder_chunk_size b" and "ss \<equiv> builder_sizes b"
  assumes cs: "0 < cs" "cs < 2 ^ 64"
    and ss: "\<forall>s\<in>set ss. 0 \<le> s \<and> s mod cs = 0 \<and> s < 2 ^ 31"
    and n: "int (length ss) < 2 ^ 64"
    and tot: "(\<Sum>s\<leftarrow>ss. s * int (itemsize d) + gap d rdb cs) < 2 ^ 63"
  shows "\<exists>idx. finalize b = Inr (idx, builder_data_file b) \<and>
               Index_init idx = Inr (written_index d rdb cs ss)"
proof -
  let ?w = "int (itemsize d)"
  let ?g = "gap d rdb cs"
  let ?P = "doc_pointers ?w ?g 0 ss"
  let ?C = "chunk_starts cs 0 ss"
  let ?A = "chunk_addrs cs ?w ?g 0 ss"
  let ?T = "(\<Sum>s\<leftarrow>ss. s * ?w + ?g)"
  have w: "0 < ?w" by simp
  have g: "0 \<le> ?g" using cs(1) by (rule gap_nonneg)
  have ss0: "\<forall>s\<in>set ss. 0 \<le> s" and ssa: "\<forall>s\<in>set ss. s mod cs = 0"
    and ss0a: "\<forall>s\<in>set ss. 0 \<le> s \<and> s mod cs = 0"
    using ss by auto
  have cs0: "cs \<noteq> 0" using cs(1) by simp
  obtain c where c: "code d = Inr c" "0 \<le> c" "c < 256" "dict_get dtypes c = Inr d"
    using code_dtypes by blast
  have arrays: "get_chunk_id_and_address d rdb ss cs = Inr (?C, ?A)"
    using cs0 ssa by (rule chunk_arrays_ok)
  have ptrs: "get_pointers d rdb ss cs = ?P" by (rule get_pointers_eq)
  have sumT: "sum_list ss \<le> ?T" using w g ss0 by (rule sum_list_le_bytes)
  have lenA: "int (length ?A) \<le> sum_list ss" using cs(1) ss0 by (rule length_chunk_addrs_le)
  have m: "int (length ?A) < 2 ^ 64" using lenA sumT tot by simp
  define r :: int where "r = (if rdb then 1 else 0)"
  have r: "0 \<le> r" "r < 256" "(r \<noteq> 0) = rdb" by (simp_all add: r_def)
  define idx where "idx = HDR_MAGIC @ le_bytes 8 1 @ le_bytes 1 c @ le_bytes 8 (int (length ss))
      @ le_bytes 8 cs @ le_bytes 8 (int (length ?A)) @ le_bytes 1 r
      @ tobytes int32 (map (np_cast int32) ss) @ tobytes int64 (map (np_cast int64) ?P)
      @ tobytes int64 (map (np_cast int64) ?C) @ tobytes int64 (map (np_cast int64) ?A)"
  define hdr where "hdr = HDR_MAGIC @ le_bytes 8 1 @ le_bytes 1 c"
  have enter: "Writer_enter d = Inr hdr"
    using c by (simp add: Writer_enter_def pack_Q_def pack_B_def hdr_def)
  have wr: "Writer_write d rdb hdr ss cs = (idx, None)"
    using cs n m
    by (simp add: Writer_write_def arrays ptrs pack_Q_def pack_B_def idx_def r_def hdr_def)
  have fin: "finalize b = Inr (idx, builder_data_file b)"
    unfolding finalize_def d_def [symmetric] rdb_def [symmetric] cs_def [symmetric]
      ss_def [symmetric]
    by (simp add: enter wr)
  have cs': "0 \<le> cs" using cs(1) by simp
  have rd: "Index_init idx =
           Inr \<lparr>index_dtype = d, index_dtype_size = int (itemsize d),
                index_len = int (length ss),
                index_chunk_size = cs,
                index_num_chunks = int (length ?A),
                index_retrieval_db = (r \<noteq> 0),
                index_sizes = map (np_cast int32) (map (np_cast int32) ss),
                index_pointers = map (np_cast int64) (map (np_cast int64) ?P),
                index_chunk_id_start = map (np_cast int64) (map (np_cast int64) ?C),
                index_chunk_address = map (np_cast int64) (map (np_cast int64) ?A)\<rparr>"
    by (rule Index_init_bytes [OF c(2) c(3) c(4) _ n _ _ cs' cs(2) _ m r(1) r(2) idx_def])
      simp_all
  have c32: "map (np_cast int32) ss = ss"
    using ss by (intro map_np_cast_id) (simp add: in_range_int32)
  have cP: "map (np_cast int64) ?P = ?P"
  proof (rule map_np_cast_id, rule ballI, rule in_range_int64)
    fix x assume "x \<in> set ?P"
    with doc_pointers_bounds [of ?w ?g ss 0] w g ss0 have "0 \<le> x \<and> x \<le> ?T" by simp
    then show "0 \<le> x" "x < 2 ^ 63" using tot by simp_all
  qed
  have cC: "map (np_cast int64) ?C = ?C"
  proof (rule map_np_cast_id, rule ballI, rule in_range_int64)
    fix x assume "x \<in> set ?C"
    with chunk_starts_bounds [OF cs(1) ss0, of 0] have "0 \<le> x \<and> x \<le> (\<Sum>s\<leftarrow>ss. s div cs)" by simp
    moreover have "(\<Sum>s\<leftarrow>ss. s div cs) \<le> sum_list ss" using cs(1) ss0 by (rule sum_div_le)
    ultimately show "0 \<le> x" "x < 2 ^ 63" using sumT tot by simp_all
  qed
  have cA: "map (np_cast int64) ?A = ?A"
  proof (rule map_np_cast_id, rule ballI, rule in_range_int64)
    fix x assume "x \<in> set ?A"
    with chunk_addrs_bounds [OF cs(1) w g ss0a, of 0]
    have "0 \<le> x \<and> x + cs * ?w + ?g \<le> ?T" by simp
    moreover have "0 \<le> cs * ?w" using cs(1) by simp
    ultimately show "0 \<le> x" "x < 2 ^ 63" using g tot by simp_all
  qed
  have "Index_init idx = Inr (written_index d rdb cs ss)"
    unfolding rd written_index_def c32 cP cC cA r(3) by simp
  with fin show ?thesis by blast
qed

subsection \<open>A built corpus\<close>


lemma total_le:
  assumes "0 < cs"
  shows "(\<Sum>s\<leftarrow>map (recorded cs) docs. s * int (itemsize d) + gap d rdb cs) \<le>
           (\<Sum>t\<leftarrow>docs. int (length t) + 2 * cs) * int (itemsize d)"
proof (induction docs)
  case Nil
  show ?case by simp
next
  case (Cons t ts)
  have "recorded cs t \<le> int (length t) + cs" using assms by (rule recorded_props)
  then have "recorded cs t * int (itemsize d) \<le> (int (length t) + cs) * int (itemsize d)"
    by (intro mult_right_mono) simp_all
  moreover have "gap d rdb cs \<le> cs * int (itemsize d)" using assms by (simp add: gap_def)
  ultimately have "recorded cs t * int (itemsize d) + gap d rdb cs \<le>
      (int (length t) + 2 * cs) * int (itemsize d)"
    by (simp add: algebra_simps)
  with Cons show ?case by (simp add: algebra_simps)
qed

lemma length_le_sum_recorded:
  assumes "0 < cs"
  shows "int (length docs) \<le> sum_list (map (recorded cs) docs)"
proof (induction docs)
  case Nil
  show ?case by simp
next
  case (Cons t ts)
  have "0 < recorded cs t" using assms by (rule recorded_props)
  with Cons show ?case by simp
qed

lemma fits_sizes:
  assumes "0 < cs" "corpus_fits d cs docs"
  shows "\<forall>s\<in>set (map (recorded cs) docs). 0 \<le> s \<and> s mod cs = 0 \<and> s < 2 ^ 31"
proof
  fix s assume "s \<in> set (map (recorded cs) docs)"
  then obtain t where t: "t \<in> set docs" "s = recorded cs t" by auto
  from assms(2) t(1) have "int (length t) + cs < 2 ^ 31"
    by (simp add: corpus_fits_def list_all_iff)
  with recorded_props [OF assms(1), where t = t] t(2)
  show "0 \<le> s \<and> s mod cs = 0 \<and> s < 2 ^ 31" by simp
qed

lemma built_corpus:
  assumes cs: "0 < cs" and fits: "corpus_fits d cs docs" and pad: "in_range int64 pad"
  shows "\<exists>idx. build_corpus cs pad rdb d docs =
                 Inr (idx, tobytes d (concat (map (stored d cs rdb pad) docs))) \<and>
               Index_init idx = Inr (written_index d rdb cs (map (recorded cs) docs))"
proof -
  let ?ini = "Builder_init cs pad rdb d"
  let ?ss = "map (recorded cs) docs"
  let ?fin = "?ini\<lparr>builder_data_file := builder_data_file ?ini
                     @ tobytes (builder_dtype ?ini)
                         (concat (map (stored (builder_dtype ?ini) (builder_chunk_size ?ini)
                                         (builder_retrieval_db ?ini) (builder_pad_id ?ini)) docs)),
                   builder_sizes := builder_sizes ?ini @ map (recorded (builder_chunk_size ?ini)) docs\<rparr>"
  have b0: "0 < builder_chunk_size ?ini" using cs by (simp add: Builder_init_def)
  have p0: "in_range int64 (builder_pad_id ?ini)" using pad by (simp add: Builder_init_def)
  have adds: "add_items ?ini docs = Inr ?fin" using b0 p0 by (rule add_items_eq)
  have fld: "builder_dtype ?fin = d" "builder_retrieval_db ?fin = rdb" "builder_chunk_size ?fin = cs"
    "builder_sizes ?fin = ?ss"
    "builder_data_file ?fin = tobytes d (concat (map (stored d cs rdb pad) docs))"
    by (simp_all add: Builder_init_def)
  have T: "(\<Sum>s\<leftarrow>?ss. s * int (itemsize d) + gap d rdb cs) < 2 ^ 63"
    using total_le [OF cs, where docs = docs and d = d and rdb = rdb] fits by (simp add: corpus_fits_def)
  have w: "0 < int (itemsize d)" by simp
  have ss: "\<forall>s\<in>set ?ss. 0 \<le> s \<and> s mod cs = 0 \<and> s < 2 ^ 31" using cs fits by (rule fits_sizes)
  then have ss0: "\<forall>s\<in>set ?ss. 0 \<le> s" by blast
  have "int (length ?ss) \<le> sum_list ?ss" using length_le_sum_recorded [OF cs, where docs = docs] by simp
  also have "\<dots> \<le> (\<Sum>s\<leftarrow>?ss. s * int (itemsize d) + gap d rdb cs)"
    using w gap_nonneg [OF cs] ss0 by (rule sum_list_le_bytes)
  finally have n: "int (length ?ss) < 2 ^ 64" using T by simp
  have cs64: "cs < 2 ^ 64" using fits by (simp add: corpus_fits_def)
  show ?thesis
    unfolding build_corpus_def adds and_then_Inr
    using finalize_written [of ?fin, unfolded fld, OF cs cs64 ss n T] .
qed

lemma stored_nonempty: "0 < cs \<Longrightarrow> stored d cs rdb pad t \<noteq> []"
  using length_stored [where cs = cs and d = d and rdb = rdb and pad = pad and t = t] recorded_props(2) [where cs = cs and t = t]
  by (auto split: if_splits)

lemma opened_corpus:
  assumes cs: "0 < cs" and fits: "corpus_fits d cs docs" and ne: "docs \<noteq> []"
    and pad: "in_range int64 pad"
  shows "\<exists>idx bin. build_corpus cs pad rdb d docs = Inr (idx, bin) \<and>
           bin = tobytes d (concat (map (stored d cs rdb pad) docs)) \<and>
           Dataset_init idx bin =
             Inr \<lparr>ds_index = written_index d rdb cs (map (recorded cs) docs),
                  ds_bin_buffer = bin\<rparr>"
proof -
  from built_corpus [OF cs fits pad, where rdb = rdb] obtain idx where
    idx: "build_corpus cs pad rdb d docs =
            Inr (idx, tobytes d (concat (map (stored d cs rdb pad) docs)))"
      "Index_init idx = Inr (written_index d rdb cs (map (recorded cs) docs))"
    by blast
  obtain t ts where docs: "docs = t # ts" using ne by (cases docs) auto
  have "stored d cs rdb pad t \<noteq> []" using cs by (rule stored_nonempty)
  then have "length (tobytes d (concat (map (stored d cs rdb pad) docs))) \<noteq> 0"
    unfolding docs by simp
  then have "tobytes d (concat (map (stored d cs rdb pad) docs)) \<noteq> []" by fastforce
  then have "Dataset_init idx (tobytes d (concat (map (stored d cs rdb pad) docs))) =
      Inr \<lparr>ds_index = written_index d rdb cs (map (recorded cs) docs),
           ds_bin_buffer = tobytes d (concat (map (stored d cs rdb pad) docs))\<rparr>"
    by (simp add: Dataset_init_def idx(2))
  with idx(1) show ?thesis by blast
qed




subsection \<open>The claims about a built corpus\<close>

lemma np_index_nth: "i < length a \<Longrightarrow> np_index a (int i) = Inr (a ! i)"
  by (simp add: np_index_def)




text \<open>
  Claim C7 (chunk-id resolution), as the code has it. In an opened corpus (positive chunk
  size, pad value a signed 64-bit integer, fitting, non-empty), for every document \<open>i\<close>:
  \<^verbatim>\<open>chunk_id_start[i]\<close> is the number of chunks of the documents before \<open>i\<close> (the sum of
  \<open>sizes[k] // chunk_size\<close> for \<open>k < i\<close>). For every offset that is a multiple of the chunk
  size and whose quotient \<open>offset // chunk_size\<close> is a signed 64-bit integer,
  \<^verbatim>\<open>get_chunk_id(i, offset)\<close> returns \<open>chunk_id_start[i] + offset // chunk_size\<close> reduced
  to 64 bits signed, which is \<open>chunk_id_start[i] + offset // chunk_size\<close> itself when that
  sum is a signed 64-bit integer. For every offset that is not a multiple of the chunk
  size the assertion of the dataset's \<^verbatim>\<open>get_chunk_id\<close> fails.
\<close>

theorem chunk_id_resolution:
  assumes "0 < chunk_size" and "corpus_fits dtype chunk_size docs" and "docs \<noteq> []"
    and "in_range int64 pad_id"
  shows "\<exists>idx bin ds.
           build_corpus chunk_size pad_id retrieval_db dtype docs = Inr (idx, bin) \<and>
           Dataset_init idx bin = Inr ds \<and>
           (\<forall>i<length docs.
              index_chunk_id_start (ds_index ds) ! i =
                (\<Sum>s\<leftarrow>take i (index_sizes (ds_index ds)). s div chunk_size) \<and>
              (\<forall>offset.
                 (offset mod chunk_size = 0 \<and> in_range int64 (offset div chunk_size) \<longrightarrow>
                    Dataset_get_chunk_id ds (int i) offset =
                      Inr (IntItem (np_cast int64
                             (index_chunk_id_start (ds_index ds) ! i + offset div chunk_size)))) \<and>
                 (offset mod chunk_size = 0 \<and> in_range int64 (offset div chunk_size) \<and>
                  in_range int64 (index_chunk_id_start (ds_index ds) ! i + offset div chunk_size) \<longrightarrow>
                    Dataset_get_chunk_id ds (int i) offset =
                      Inr (IntItem
                             (index_chunk_id_start (ds_index ds) ! i + offset div chunk_size))) \<and>
                 (offset mod chunk_size \<noteq> 0 \<longrightarrow>
                    Dataset_get_chunk_id ds (int i) offset = Inl AssertionError)))"
proof -
  let ?ss = "map (recorded chunk_size) docs"
  let ?index = "written_index dtype retrieval_db chunk_size ?ss"
  from opened_corpus [OF assms(1-4), where rdb = retrieval_db]
  obtain idx bin where
    b: "build_corpus chunk_size pad_id retrieval_db dtype docs = Inr (idx, bin)"
    and ds: "Dataset_init idx bin = Inr \<lparr>ds_index = ?index, ds_bin_buffer = bin\<rparr>"
    by blast
  let ?ds = "\<lparr>ds_index = ?index, ds_bin_buffer = bin\<rparr>"
  have f: "index_chunk_id_start ?index = chunk_starts chunk_size 0 ?ss"
    "index_sizes ?index = ?ss" "index_chunk_size ?index = chunk_size"
    by (simp_all add: written_index_def)
  have each: "index_chunk_id_start (ds_index ?ds) ! i =
                (\<Sum>s\<leftarrow>take i (index_sizes (ds_index ?ds)). s div chunk_size) \<and>
              (\<forall>offset.
                 (offset mod chunk_size = 0 \<and> in_range int64 (offset div chunk_size) \<longrightarrow>
                    Dataset_get_chunk_id ?ds (int i) offset =
                      Inr (IntItem (np_cast int64
                             (index_chunk_id_start (ds_index ?ds) ! i + offset div chunk_size)))) \<and>
                 (offset mod chunk_size = 0 \<and> in_range int64 (offset div chunk_size) \<and>
                  in_range int64 (index_chunk_id_start (ds_index ?ds) ! i + offset div chunk_size) \<longrightarrow>
                    Dataset_get_chunk_id ?ds (int i) offset =
                      Inr (IntItem
                             (index_chunk_id_start (ds_index ?ds) ! i + offset div chunk_size))) \<and>
                 (offset mod chunk_size \<noteq> 0 \<longrightarrow>
                    Dataset_get_chunk_id ?ds (int i) offset = Inl AssertionError))"
    if i: "i < length docs" for i
  proof -
    have i': "i < length ?ss" "i < length (chunk_starts chunk_size 0 ?ss)" using i by simp_all
    have st: "chunk_starts chunk_size 0 ?ss ! i = (\<Sum>s\<leftarrow>take i ?ss. s div chunk_size)"
      using chunk_starts_nth [OF i'(1), of chunk_size 0] by simp
    have ix: "np_index (chunk_starts chunk_size 0 ?ss) (int i) =
                Inr (chunk_starts chunk_size 0 ?ss ! i)"
      using i'(2) by (rule np_index_nth)
    define c where "c = chunk_starts chunk_size 0 ?ss ! i"
    have g: "Dataset_get_chunk_id ?ds (int i) offset =
               (if offset mod chunk_size \<noteq> 0 then Inl AssertionError
                else if in_range int64 (offset div chunk_size)
                  then Inr (IntItem (np_cast int64 (c + offset div chunk_size)))
                else if 2 ^ 63 \<le> offset div chunk_size \<and> offset div chunk_size < 2 ^ 64
                  then Inr FloatItem
                else Inl AttributeError)" for offset
      using assms(1)
      by (simp add: f Dataset_get_chunk_id_def Index_get_chunk_id_def ix c_def Let_def)
    have w: "in_range int64 (c + q) \<Longrightarrow> np_cast int64 (c + q) = c + q" for q
      by (rule np_cast_in_range)
    have s: "index_chunk_id_start (ds_index ?ds) ! i = c"
      by (simp add: f c_def)
    have s2: "index_chunk_id_start (ds_index ?ds) ! i =
                (\<Sum>s\<leftarrow>take i (index_sizes (ds_index ?ds)). s div chunk_size)"
      by (simp add: f st)
    show ?thesis
      unfolding s2 [symmetric] unfolding s using g w by simp
  qed
  from b ds each show ?thesis by blast
qed

theorem chunk_id_resolution_witness:
  "\<exists>idx bin ds.
     build_corpus 4 0 False int32 [[1, 2, 3, 4, 5], [9, 9]] = Inr (idx, bin) \<and>
     Dataset_init idx bin = Inr ds \<and>
     index_chunk_id_start (ds_index ds) ! 0 = 0 \<and>
     Dataset_get_chunk_id ds 0 0 = Inr (IntItem 0) \<and>
     Dataset_get_chunk_id ds 0 4 = Inr (IntItem 1) \<and>
     Dataset_get_chunk_id ds 0 3 = Inl AssertionError"
proof -
  let ?docs = "[[1, 2, 3, 4, 5], [9, 9]] :: int list list"
  have h: "(0::int) < 4" "corpus_fits int32 4 ?docs" "?docs \<noteq> []" "in_range int64 (0::int)"
    by (simp_all add: corpus_fits_def in_range_def)
  from chunk_id_resolution [OF h, of False] obtain idx bin ds where
    b: "build_corpus 4 0 False int32 ?docs = Inr (idx, bin)" "Dataset_init idx bin = Inr ds"
    and e: "\<forall>i<length ?docs.
              index_chunk_id_start (ds_index ds) ! i =
                (\<Sum>s\<leftarrow>take i (index_sizes (ds_index ds)). s div 4) \<and>
              (\<forall>offset.
                 (offset mod 4 = 0 \<and> in_range int64 (offset div 4) \<longrightarrow>
                    Dataset_get_chunk_id ds (int i) offset =
                      Inr (IntItem (np_cast int64
                             (index_chunk_id_start (ds_index ds) ! i + offset div 4)))) \<and>
                 (offset mod 4 = 0 \<and> in_range int64 (offset div 4) \<and>
                  in_range int64 (index_chunk_id_start (ds_index ds) ! i + offset div 4) \<longrightarrow>
                    Dataset_get_chunk_id ds (int i) offset =
                      Inr (IntItem (index_chunk_id_start (ds_index ds) ! i + offset div 4))) \<and>
                 (offset mod 4 \<noteq> 0 \<longrightarrow>
                    Dataset_get_chunk_id ds (int i) offset = Inl AssertionError))"
    by blast
  from e [rule_format, of 0] have
    s0: "index_chunk_id_start (ds_index ds) ! 0 = 0"
    by simp
  from e [rule_format, of 0] s0 have
    e2: "\<forall>offset.
                 (offset mod 4 = 0 \<and> in_range int64 (offset div 4) \<and>
                  in_range int64 (0 + offset div 4) \<longrightarrow>
                    Dataset_get_chunk_id ds 0 offset = Inr (IntItem (0 + offset div 4))) \<and>
                 (offset mod 4 \<noteq> 0 \<longrightarrow>
                    Dataset_get_chunk_id ds 0 offset = Inl AssertionError)"
    by (simp add: s0 np_cast_in_range)
  have r: "in_range int64 (0::int)" "in_range int64 (1::int)"
    by (simp_all add: in_range_def)
  from e2 [rule_format, of 0] r have
    e1: "Dataset_get_chunk_id ds 0 0 = Inr (IntItem 0)"
    by simp
  from e2 [rule_format, of 4] r have
    e3: "Dataset_get_chunk_id ds 0 4 = Inr (IntItem 1)"
    by simp
  from e2 [rule_format, of 3] have
    e4: "Dataset_get_chunk_id ds 0 3 = Inl AssertionError"
    by simp
  from b s0 e1 e3 e4 show ?thesis by blast
qed

text \<open>The claim as stated fails on an offset whose chunk number leaves the signed 64-bit
  integers: in the corpus of two documents \<open>[1, 2, 3, 4, 5]\<close> and \<open>[9, 9]\<close> with chunk
  size 4, \<^verbatim>\<open>chunk_id_start[1]\<close> is 2, the offset \<open>2 ^ 65 - 8\<close> is a multiple of 4 with
  quotient \<open>2 ^ 63 - 2\<close>, and \<^verbatim>\<open>get_chunk_id(1, 2 ^ 65 - 8)\<close> returns \<open>- (2 ^ 63)\<close>, not
  \<open>2 ^ 63\<close>.\<close>

theorem chunk_id_wrap_counterexample:
  "(2 ^ 65 - 8) mod 4 = (0::int) \<and>
   and_then scenario_corpus (\<lambda>(idx, bin).
     and_then (Dataset_init idx bin) (\<lambda>ds.
       Inr (index_chunk_id_start (ds_index ds) ! 1
              + (2 ^ 65 - 8) div index_chunk_size (ds_index ds)))) = Inr (2 ^ 63) \<and>
   and_then scenario_corpus (\<lambda>(idx, bin).
     and_then (Dataset_init idx bin) (\<lambda>ds.
       Dataset_get_chunk_id ds 1 (2 ^ 65 - 8))) = Inr (IntItem (- (2 ^ 63)))"
  unfolding scenario_corpus_def build_corpus_def by code_simp

text \<open>
  Claim C4 (\<^verbatim>\<open>add_item\<close>), as the code has it. For a positive chunk size and a pad
  value that is a signed 64-bit integer (outside that range the padding raises),
  \<^verbatim>\<open>add_item(tokens)\<close> appends to the data file the bytes of the tokens followed by
  \<open>chunk_size - len(tokens) % chunk_size\<close> pad values (and by \<open>chunk_size\<close> more pad
  values in retrieval-db mode), and records the size
  \<open>len(tokens) + chunk_size - len(tokens) % chunk_size\<close>: the padded length without
  the reserved block. That size is a multiple of the chunk size, greater than
  \<open>len(tokens)\<close> and at most \<open>len(tokens) + chunk_size\<close>; for an input whose length is
  a multiple of the chunk size it is \<open>len(tokens) + chunk_size\<close>.
\<close>

theorem add_item_pads:
  assumes "0 < builder_chunk_size self" and "in_range int64 (builder_pad_id self)"
  shows "add_item self tensor =
           Inr (self\<lparr>builder_data_file := builder_data_file self
                  @ tobytes (builder_dtype self)
                      (map (np_cast (builder_dtype self)) tensor
                         @ replicate
                             (nat (builder_chunk_size self
                                     - int (length tensor) mod builder_chunk_size self
                                     + (if builder_retrieval_db self
                                        then builder_chunk_size self else 0)))
                             (np_cast (builder_dtype self) (builder_pad_id self))),
                builder_sizes := builder_sizes self
                  @ [int (length tensor)
                       + (builder_chunk_size self
                            - int (length tensor) mod builder_chunk_size self)]\<rparr>) \<and>
         (int (length tensor)
            + (builder_chunk_size self - int (length tensor) mod builder_chunk_size self))
           mod builder_chunk_size self = 0 \<and>
         int (length tensor)
           < int (length tensor)
               + (builder_chunk_size self - int (length tensor) mod builder_chunk_size self) \<and>
         int (length tensor)
             + (builder_chunk_size self - int (length tensor) mod builder_chunk_size self)
           \<le> int (length tensor) + builder_chunk_size self \<and>
         (int (length tensor) mod builder_chunk_size self = 0 \<longrightarrow>
            int (length tensor)
              + (builder_chunk_size self - int (length tensor) mod builder_chunk_size self) =
            int (length tensor) + builder_chunk_size self)"
proof -
  note p = pad_bounds [OF assms(1), of "int (length tensor)"]
  have "add_item self tensor =
           Inr (self\<lparr>builder_data_file := builder_data_file self
                  @ tobytes (builder_dtype self)
                      (map (np_cast (builder_dtype self)) tensor
                         @ replicate
                             (nat (builder_chunk_size self
                                     - int (length tensor) mod builder_chunk_size self
                                     + (if builder_retrieval_db self
                                        then builder_chunk_size self else 0)))
                             (np_cast (builder_dtype self) (builder_pad_id self))),
                builder_sizes := builder_sizes self
                  @ [int (length tensor)
                       + (builder_chunk_size self
                            - int (length tensor) mod builder_chunk_size self)]\<rparr>)"
    using add_item_eq [OF assms, of tensor] by (simp add: stored_def recorded_def)
  moreover have "int (length tensor)
           < int (length tensor)
               + (builder_chunk_size self - int (length tensor) mod builder_chunk_size self)"
    using p(1) by linarith
  moreover have "int (length tensor)
             + (builder_chunk_size self - int (length tensor) mod builder_chunk_size self)
           \<le> int (length tensor) + builder_chunk_size self"
    using p(2) by linarith
  ultimately show ?thesis using p(3) by simp
qed

theorem add_item_pads_witness:
  "add_item (Builder_init 4 0 True int32) [1, 2, 3, 4, 5] =
     Inr \<lparr>builder_data_file = tobytes int32 [1, 2, 3, 4, 5, 0, 0, 0, 0, 0, 0, 0],
          builder_dtype = int32, builder_chunk_size = 4, builder_sizes = [8],
          builder_retrieval_db = True, builder_pad_id = 0\<rparr>"
proof -
  have h: "0 < builder_chunk_size (Builder_init 4 0 True int32)"
    "in_range int64 (builder_pad_id (Builder_init 4 0 True int32))"
    by (simp_all add: Builder_init_def in_range_def)
  have c: "np_cast int32 0 = 0" "np_cast int32 1 = 1" "np_cast int32 2 = 2" "np_cast int32 3 = 3"
    "np_cast int32 4 = 4" "np_cast int32 5 = 5"
    by (simp_all add: np_cast_def)
  have r: "replicate 7 (0::int) = [0, 0, 0, 0, 0, 0, 0]"
    by (simp add: numeral_eq_Suc)
  from add_item_pads [OF h, of "[1, 2, 3, 4, 5]"] show ?thesis
    by (simp add: Builder_init_def c r)
qed

text \<open>The claim as stated fails on an input whose length is a multiple of the chunk
  size: four tokens with chunk size 4 are recorded with size 8, not 4.\<close>

theorem add_item_aligned_counterexample:
  "int (length [1, 2, 3, 4 :: int]) mod 4 = 0 \<and>
   add_item (Builder_init 4 0 False int32) [1, 2, 3, 4] =
     Inr \<lparr>builder_data_file = tobytes int32 [1, 2, 3, 4, 0, 0, 0, 0],
          builder_dtype = int32, builder_chunk_size = 4, builder_sizes = [8],
          builder_retrieval_db = False, builder_pad_id = 0\<rparr>"
  by code_simp

subsection \<open>Indexing outside the arrays\<close>

lemma and_then_eq_Inr: "and_then m f = Inr y \<longleftrightarrow> (\<exists>x. m = Inr x \<and> f x = Inr y)"
  by (cases m) simp_all

lemma frombuffer_length:
  "frombuffer buf d cnt off = Inr xs \<Longrightarrow> 0 \<le> cnt \<Longrightarrow> length xs = nat cnt"
  by (auto simp: frombuffer_def Let_def split: if_splits)

lemma unpack_le_nonneg: "unpack_le w bs = Inr n \<Longrightarrow> 0 \<le> n"
  by (auto simp: unpack_le_def from_le_nonneg split: if_splits)

lemma Index_init_lengths:
  assumes "Index_init file = Inr index"
  shows "0 \<le> index_len index \<and> 0 \<le> index_num_chunks index \<and>
         length (index_sizes index) = nat (index_len index) \<and>
         length (index_pointers index) = nat (index_len index) \<and>
         length (index_chunk_id_start index) = nat (index_len index) \<and>
         length (index_chunk_address index) = nat (index_num_chunks index)"
proof -
  from assms obtain len num_chunks sizes pointers chunk_id_start chunk_address o1 o2 o3 o4 d
    where u: "unpack_le 8 (stream_read file 18 8) = Inr len"
      "unpack_le 8 (stream_read file 34 8) = Inr num_chunks"
    and f: "frombuffer file int32 len o1 = Inr sizes"
      "frombuffer file int64 len o2 = Inr pointers"
      "frombuffer file int64 len o3 = Inr chunk_id_start"
      "frombuffer file int64 num_chunks o4 = Inr chunk_address"
    and i: "index_len index = len" "index_num_chunks index = num_chunks"
      "index_sizes index = sizes" "index_pointers index = pointers"
      "index_chunk_id_start index = chunk_id_start" "index_chunk_address index = chunk_address"
    unfolding Index_init_def Let_def
    by (auto simp: and_then_eq_Inr split: if_splits)
  have l: "0 \<le> len" "0 \<le> num_chunks" using u by (auto dest: unpack_le_nonneg)
  show ?thesis
    unfolding i using l f by (auto dest: frombuffer_length)
qed

lemma Dataset_init_index:
  "Dataset_init idx_file bin_file = Inr ds \<Longrightarrow> Index_init idx_file = Inr (ds_index ds)"
  by (auto simp: Dataset_init_def and_then_eq_Inr split: if_splits)

lemma np_index_outside:
  "i < - int (length a) \<or> int (length a) \<le> i \<Longrightarrow> np_index a i = Inl IndexError"
  by (auto simp: np_index_def)

lemma np_index_negative:
  "- int (length a) \<le> i \<Longrightarrow> i < 0 \<Longrightarrow>
     np_index a i = Inr (a ! nat (i + int (length a))) \<and>
     np_index a (i + int (length a)) = Inr (a ! nat (i + int (length a)))"
  by (auto simp: np_index_def)

text \<open>
  Claim C8 (bounds checking), as the code has it. The arrays of the index of an opened
  dataset have \<open>num_documents\<close> and \<open>num_chunks\<close> entries, and they are subscripted
  as numpy arrays. A document id \<open>i\<close> with \<open>i \<ge> num_documents\<close> or
  \<open>i < - num_documents\<close> raises \<^verbatim>\<open>IndexError\<close> in the index lookup, and so in
  \<^verbatim>\<open>get(i)\<close> and in the item accessor; a chunk id \<open>c\<close> with \<open>c \<ge> num_chunks\<close> or
  \<open>c < - num_chunks\<close> raises \<^verbatim>\<open>IndexError\<close> in \<^verbatim>\<open>get_chunk_address\<close> and in
  \<^verbatim>\<open>get_chunk\<close>. A negative id from \<open>- n\<close> on raises nothing: it is the entry
  \<open>n + i\<close>, counted from the end.
\<close>

theorem bounds_checking:
  assumes "Dataset_init idx_file bin_file = Inr ds"
  shows "(i < - index_len (ds_index ds) \<or> index_len (ds_index ds) \<le> i \<longrightarrow>
            Index_getitem (ds_index ds) i = Inl IndexError \<and>
            Dataset_get ds i offset length_opt = Inl IndexError \<and>
            Dataset_getitem ds (IntKey i) = Inl IndexError) \<and>
         (- index_len (ds_index ds) \<le> i \<and> i < 0 \<longrightarrow>
            Index_getitem (ds_index ds) i =
              Index_getitem (ds_index ds) (i + index_len (ds_index ds)) \<and>
            Index_getitem (ds_index ds) i \<noteq> Inl IndexError) \<and>
         (c < - index_num_chunks (ds_index ds) \<or> index_num_chunks (ds_index ds) \<le> c \<longrightarrow>
            Index_get_chunk_address (ds_index ds) c = Inl IndexError \<and>
            Dataset_get_chunk ds (IntKey c) force_no_padding = Inl IndexError) \<and>
         (- index_num_chunks (ds_index ds) \<le> c \<and> c < 0 \<longrightarrow>
            Index_get_chunk_address (ds_index ds) c =
              Index_get_chunk_address (ds_index ds) (c + index_num_chunks (ds_index ds)) \<and>
            Index_get_chunk_address (ds_index ds) c \<noteq> Inl IndexError)"
proof -
  let ?x = "ds_index ds"
  note l = Index_init_lengths [OF Dataset_init_index [OF assms]]
  have n: "int (length (index_pointers ?x)) = index_len ?x"
    "int (length (index_sizes ?x)) = index_len ?x"
    "int (length (index_chunk_address ?x)) = index_num_chunks ?x"
    using l by simp_all
  have out_doc: "Index_getitem ?x i = Inl IndexError"
    if "i < - index_len ?x \<or> index_len ?x \<le> i"
    using that np_index_outside [of i "index_pointers ?x"] n(1)
    by (simp add: Index_getitem_def)
  have neg_doc: "Index_getitem ?x i = Index_getitem ?x (i + index_len ?x) \<and>
                 Index_getitem ?x i \<noteq> Inl IndexError"
    if "- index_len ?x \<le> i \<and> i < 0"
    using that np_index_negative [of "index_pointers ?x" i]
      np_index_negative [of "index_sizes ?x" i] n(1,2)
    by (simp add: Index_getitem_def)
  have out_chunk: "Index_get_chunk_address ?x c = Inl IndexError"
    if "c < - index_num_chunks ?x \<or> index_num_chunks ?x \<le> c"
    using that np_index_outside [of c "index_chunk_address ?x"] n(3)
    by (simp add: Index_get_chunk_address_def)
  have neg_chunk: "Index_get_chunk_address ?x c =
                     Index_get_chunk_address ?x (c + index_num_chunks ?x) \<and>
                   Index_get_chunk_address ?x c \<noteq> Inl IndexError"
    if "- index_num_chunks ?x \<le> c \<and> c < 0"
    using that np_index_negative [of "index_chunk_address ?x" c] n(3)
    by (simp add: Index_get_chunk_address_def)
  have get_doc: "Dataset_get ds i offset length_opt = Inl IndexError \<and>
                 Dataset_getitem ds (IntKey i) = Inl IndexError"
    if "i < - index_len ?x \<or> index_len ?x \<le> i"
    using out_doc [OF that] by (simp add: Dataset_get_def Dataset_getitem_def Let_def)
  have get_chunk: "Dataset_get_chunk ds (IntKey c) force_no_padding = Inl IndexError"
    if "c < - index_num_chunks ?x \<or> index_num_chunks ?x \<le> c"
    using out_chunk [OF that] by (simp add: Dataset_get_chunk_def Let_def)
  show ?thesis
    using out_doc get_doc neg_doc out_chunk get_chunk neg_chunk by blast
qed

theorem bounds_checking_witness:
  "\<exists>idx bin ds.
     build_corpus 4 0 False int32 [[1, 2, 3, 4, 5], [9, 9]] = Inr (idx, bin) \<and>
     Dataset_init idx bin = Inr ds \<and>
     Index_getitem (ds_index ds) 2 = Inl IndexError \<and>
     Dataset_get ds (- 3) 0 None = Inl IndexError \<and>
     Dataset_getitem ds (IntKey 2) = Inl IndexError \<and>
     Index_getitem (ds_index ds) (- 1) = Index_getitem (ds_index ds) 1 \<and>
     Index_get_chunk_address (ds_index ds) 3 = Inl IndexError \<and>
     Dataset_get_chunk ds (IntKey (- 4)) False = Inl IndexError \<and>
     Index_get_chunk_address (ds_index ds) (- 1) = Index_get_chunk_address (ds_index ds) 2"
proof -
  let ?docs = "[[1, 2, 3, 4, 5], [9, 9]] :: int list list"
  have h: "(0::int) < 4" "corpus_fits int32 4 ?docs" "?docs \<noteq> []" "in_range int64 (0::int)"
    by (simp_all add: corpus_fits_def in_range_def)
  from opened_corpus [OF h, where rdb = False] obtain idx bin where
    b: "build_corpus 4 0 False int32 ?docs = Inr (idx, bin)"
    and ds: "Dataset_init idx bin =
               Inr \<lparr>ds_index = written_index int32 False 4 (map (recorded 4) ?docs),
                    ds_bin_buffer = bin\<rparr>"
    by blast
  let ?ds = "\<lparr>ds_index = written_index int32 False 4 (map (recorded 4) ?docs),
              ds_bin_buffer = bin\<rparr>"
  have n: "index_len (ds_index ?ds) = 2" "index_num_chunks (ds_index ?ds) = 3"
    by (simp_all add: written_index_def length_chunk_addrs recorded_def)
  from bounds_checking [OF ds, of 2 0 None 3 False]
  have a1: "Index_getitem (ds_index ?ds) 2 = Inl IndexError"
    and a2: "Dataset_getitem ?ds (IntKey 2) = Inl IndexError"
    and a3: "Index_get_chunk_address (ds_index ?ds) 3 = Inl IndexError"
    unfolding n by simp_all
  from bounds_checking [OF ds, of "- 3" 0 None "- 4" False]
  have a4: "Dataset_get ?ds (- 3) 0 None = Inl IndexError"
    and a5: "Dataset_get_chunk ?ds (IntKey (- 4)) False = Inl IndexError"
    unfolding n by simp_all
  from bounds_checking [OF ds, of "- 1" 0 None "- 1" False]
  have a6: "Index_getitem (ds_index ?ds) (- 1) = Index_getitem (ds_index ?ds) 1"
    and a7: "Index_get_chunk_address (ds_index ?ds) (- 1) =
               Index_get_chunk_address (ds_index ?ds) 2"
    unfolding n by simp_all
  from b ds a1 a2 a3 a4 a5 a6 a7 show ?thesis by blast
qed

text \<open>The claim as stated fails for the negative ids from \<open>- n\<close> on: in the corpus of
  the concrete scenario \<^verbatim>\<open>get(-1)\<close> returns the last document, the index lookup of
  document \<open>-1\<close> its pointer and size, and the address lookup of chunk \<open>-1\<close> the address
  of the last chunk.\<close>

theorem negative_id_counterexample:
  "and_then scenario_corpus (\<lambda>(idx, bin).
     and_then (Dataset_init idx bin) (\<lambda>ds. Dataset_get ds (- 1) 0 None)) = Inr [9, 9, 0, 0] \<and>
   and_then scenario_corpus (\<lambda>(idx, bin).
     and_then (Dataset_init idx bin) (\<lambda>ds. Dataset_getitem ds (IntKey (- 1)))) =
     Inr (Array [9, 9, 0, 0]) \<and>
   and_then scenario_corpus (\<lambda>(idx, bin).
     and_then (Index_init idx) (\<lambda>index. Index_getitem index (- 1))) = Inr (32, 4) \<and>
   and_then scenario_corpus (\<lambda>(idx, bin).
     and_then (Index_init idx) (\<lambda>index. Index_get_chunk_address index (- 1))) = Inr 32"
  unfolding scenario_corpus_def build_corpus_def by code_simp

subsection \<open>Chunk views\<close>




lemma frombuffer_elements_int:
  assumes "k + n \<le> length es" "cnt = int n" "off = int (itemsize d) * int k"
  shows "frombuffer (tobytes d es) d cnt off = Inr (map (np_cast d) (take n (drop k es)))"
  unfolding assms(2,3) using assms(1) by (rule frombuffer_elements)






subsection \<open>Merging\<close>

lemma corpus_fits_append:
  assumes "0 < cs" "corpus_fits d cs (xs @ ys)"
  shows "corpus_fits d cs ys"
proof -
  have "0 \<le> (\<Sum>t\<leftarrow>xs. int (length t) + 2 * cs)"
    using assms(1) by (intro sum_list_nonneg) auto
  then have "(\<Sum>t\<leftarrow>ys. int (length t) + 2 * cs) \<le> (\<Sum>t\<leftarrow>xs @ ys. int (length t) + 2 * cs)"
    by simp
  then have le: "(\<Sum>t\<leftarrow>ys. int (length t) + 2 * cs) * int (itemsize d)
               \<le> (\<Sum>t\<leftarrow>xs @ ys. int (length t) + 2 * cs) * int (itemsize d)"
    by (intro mult_right_mono) simp_all
  have lt: "(\<Sum>t\<leftarrow>xs @ ys. int (length t) + 2 * cs) * int (itemsize d) < 2 ^ 63"
    using assms(2) unfolding corpus_fits_def by blast
  have tot: "(\<Sum>t\<leftarrow>ys. int (length t) + 2 * cs) * int (itemsize d) < 2 ^ 63"
    using le lt by (rule le_less_trans)
  have "cs < 2 ^ 31" "list_all (\<lambda>t. int (length t) + cs < 2 ^ 31) ys"
    using assms(2) unfolding corpus_fits_def by simp_all
  with tot show ?thesis unfolding corpus_fits_def by blast
qed

text \<open>
  Claim C9 (merge equivalence), as the code has it. The three builders have the same
  chunk size, pad value, retrieval-db mode and element type, the chunk size is positive,
  the pad value is a signed 64-bit integer and the joint corpus fits. Then corpus B is
  built from the B-items, builder A takes the A-items, and \<^verbatim>\<open>merge_file_(B)\<close> followed
  by \<^verbatim>\<open>finalize\<close> yields the very index file and data file that one builder yields from
  the A-items followed by the B-items.
\<close>

theorem merge_equivalence:
  assumes "0 < chunk_size" and "corpus_fits dtype chunk_size (a_items @ b_items)"
    and "in_range int64 pad_id"
  shows "\<exists>idx_b bin_b builder_a idx bin.
           build_corpus chunk_size pad_id retrieval_db dtype b_items = Inr (idx_b, bin_b) \<and>
           add_items (Builder_init chunk_size pad_id retrieval_db dtype) a_items = Inr builder_a \<and>
           and_then (merge_file builder_a idx_b bin_b) finalize = Inr (idx, bin) \<and>
           build_corpus chunk_size pad_id retrieval_db dtype (a_items @ b_items) = Inr (idx, bin)"
proof -
  let ?ini = "Builder_init chunk_size pad_id retrieval_db dtype"
  let ?st = "stored dtype chunk_size retrieval_db pad_id"
  have fb: "corpus_fits dtype chunk_size b_items" using assms(1,2) by (rule corpus_fits_append)
  from built_corpus [OF assms(1) fb assms(3), where rdb = retrieval_db]
  obtain idx_b where
    bb: "build_corpus chunk_size pad_id retrieval_db dtype b_items =
           Inr (idx_b, tobytes dtype (concat (map ?st b_items)))"
    and ib: "Index_init idx_b =
               Inr (written_index dtype retrieval_db chunk_size (map (recorded chunk_size) b_items))"
    by blast
  have c0: "0 < builder_chunk_size ?ini" "in_range int64 (builder_pad_id ?ini)"
    using assms(1,3) by (simp_all add: Builder_init_def)
  define builder_a where
    "builder_a = ?ini\<lparr>builder_data_file := tobytes dtype (concat (map ?st a_items)),
                      builder_sizes := map (recorded chunk_size) a_items\<rparr>"
  define builder_ab where
    "builder_ab = ?ini\<lparr>builder_data_file := tobytes dtype (concat (map ?st (a_items @ b_items))),
                       builder_sizes := map (recorded chunk_size) (a_items @ b_items)\<rparr>"
  have aa: "add_items ?ini a_items = Inr builder_a"
    using add_items_eq [OF c0, of a_items] by (simp add: builder_a_def Builder_init_def)
  have ab: "add_items ?ini (a_items @ b_items) = Inr builder_ab"
    using add_items_eq [OF c0, of "a_items @ b_items"]
    by (simp add: builder_ab_def Builder_init_def)
  have mg: "merge_file builder_a idx_b (tobytes dtype (concat (map ?st b_items))) = Inr builder_ab"
    by (simp add: merge_file_def ib written_index_def builder_a_def builder_ab_def
        Builder_init_def)
  from built_corpus [OF assms, where rdb = retrieval_db]
  obtain idx where
    bab: "build_corpus chunk_size pad_id retrieval_db dtype (a_items @ b_items) =
            Inr (idx, tobytes dtype (concat (map ?st (a_items @ b_items))))"
    by blast
  then have fin: "finalize builder_ab =
                    Inr (idx, tobytes dtype (concat (map ?st (a_items @ b_items))))"
    by (simp add: build_corpus_def ab)
  have "and_then (merge_file builder_a idx_b (tobytes dtype (concat (map ?st b_items)))) finalize =
          Inr (idx, tobytes dtype (concat (map ?st (a_items @ b_items))))"
    by (simp add: mg fin)
  with bb aa bab show ?thesis by blast
qed

theorem merge_equivalence_witness:
  "\<exists>idx_b bin_b builder_a idx bin.
     build_corpus 4 0 True int16 [[9, 9], [7]] = Inr (idx_b, bin_b) \<and>
     add_items (Builder_init 4 0 True int16) [[1, 2, 3, 4, 5]] = Inr builder_a \<and>
     and_then (merge_file builder_a idx_b bin_b) finalize = Inr (idx, bin) \<and>
     build_corpus 4 0 True int16 ([[1, 2, 3, 4, 5]] @ [[9, 9], [7]]) = Inr (idx, bin)"
proof -
  have h: "(0::int) < 4" "corpus_fits int16 4 ([[1, 2, 3, 4, 5]] @ [[9, 9], [7]])"
    "in_range int64 (0::int)"
    by (simp_all add: corpus_fits_def in_range_def)
  from merge_equivalence [OF h, of True] show ?thesis .
qed

text \<open>The claim as stated fails when the builders agree on the element type and the
  chunk size only. \<^verbatim>\<open>merge_file_\<close> checks the element type and copies the bytes of B as
  they are. With chunk size 4 and 32-bit integers, builder A (pad value 0) takes
  \<open>[1, 2, 3, 4, 5]\<close> and corpus B is built from \<open>[9, 9]\<close> with pad value 7: the merged data
  file ends in \<open>9, 9, 7, 7\<close>, the data file of one builder with pad value 0 in
  \<open>9, 9, 0, 0\<close>, and the merged corpus is the corpus of one builder neither with pad
  value 0 nor with pad value 7. With B built in retrieval-db mode and A not, the merged
  corpus differs from the corpus of one builder in the mode of A.\<close>

theorem merge_pad_mismatch_counterexample:
  "and_then (build_corpus 4 7 False int32 [[9, 9]]) (\<lambda>(idx_b, bin_b).
     and_then (add_items (Builder_init 4 0 False int32) [[1, 2, 3, 4, 5]]) (\<lambda>builder_a.
     and_then (and_then (merge_file builder_a idx_b bin_b) finalize) (\<lambda>(idx, bin). Inr bin)))
     = Inr (tobytes int32 [1, 2, 3, 4, 5, 0, 0, 0, 9, 9, 7, 7]) \<and>
   and_then (build_corpus 4 0 False int32 ([[1, 2, 3, 4, 5]] @ [[9, 9]])) (\<lambda>(idx, bin). Inr bin)
     = Inr (tobytes int32 [1, 2, 3, 4, 5, 0, 0, 0, 9, 9, 0, 0]) \<and>
   and_then (build_corpus 4 7 False int32 [[9, 9]]) (\<lambda>(idx_b, bin_b).
     and_then (add_items (Builder_init 4 0 False int32) [[1, 2, 3, 4, 5]]) (\<lambda>builder_a.
     and_then (merge_file builder_a idx_b bin_b) finalize))
     \<noteq> build_corpus 4 0 False int32 ([[1, 2, 3, 4, 5]] @ [[9, 9]]) \<and>
   and_then (build_corpus 4 7 False int32 [[9, 9]]) (\<lambda>(idx_b, bin_b).
     and_then (add_items (Builder_init 4 0 False int32) [[1, 2, 3, 4, 5]]) (\<lambda>builder_a.
     and_then (merge_file builder_a idx_b bin_b) finalize))
     \<noteq> build_corpus 4 7 False int32 ([[1, 2, 3, 4, 5]] @ [[9, 9]]) \<and>
   and_then (build_corpus 4 0 True int32 [[9, 9]]) (\<lambda>(idx_b, bin_b).
     and_then (add_items (Builder_init 4 0 False int32) [[1, 2, 3, 4, 5]]) (\<lambda>builder_a.
     and_then (merge_file builder_a idx_b bin_b) finalize))
     \<noteq> build_corpus 4 0 False int32 ([[1, 2, 3, 4, 5]] @ [[9, 9]])"
  unfolding build_corpus_def by code_simp

end
